theory Spec2Isabelle
  imports Complex_Main "HOL-Library.Word"
begin

section \<open>Particle roundness calculator (V11.py): a shallow embedding\<close>

text \<open>
  The program is a PySide6 application around OpenCV. The embedding covers the crop
  dialog (class \<open>ImageCropDialog\<close>) and the analysis pipeline of the main window
  (class \<open>CircularityCalculator\<close>): binarisation, particle extraction, the area filter
  and the CSV export. Widgets are modelled by the fields a handler reads or writes;
  a handler is a function from the state (and the event) to the new state together
  with what the operator sees: a warning box, or a Python exception.

  Python's \<open>int\<close> is \<open>int\<close>. A \<open>float\<close> is the real number it stands for. In the
  crop dialog each float operation is rounded to the binary64 format (\<open>fl64\<close>);
  in the measures of a contour the rounding errors are not modelled. OpenCV's \<open>arcLength\<close>,
  \<open>contourArea\<close> and \<open>threshold\<close> are written out after their documented
  behaviour; \<open>findContours\<close>, \<open>moments\<close> and Python's \<open>float()\<close> parser are
  parameters of the model.
\<close>

subsection \<open>Images\<close>

type_synonym bgr = "8 word \<times> 8 word \<times> 8 word"
type_synonym image = "bgr list list"
type_synonym gray = "8 word list list"

text \<open>\<open>image.shape[:2]\<close>: the number of rows, and the length of a row.\<close>

definition img_height :: "'a list list \<Rightarrow> int" where
  "img_height im = int (length im)"

definition img_width :: "'a list list \<Rightarrow> int" where
  "img_width im = (case im of [] \<Rightarrow> 0 | r # _ \<Rightarrow> int (length r))"

text \<open>
  A basic slice \<open>xs[a:b]\<close> of Python and NumPy: a negative bound counts from the end,
  both bounds are cut to the length, and the slice is empty when they cross.
\<close>

definition slice_bound :: "int \<Rightarrow> int \<Rightarrow> int" where
  "slice_bound n i = (if i < 0 then max (i + n) 0 else min i n)"

definition py_slice :: "int \<Rightarrow> int \<Rightarrow> 'a list \<Rightarrow> 'a list" where
  "py_slice a b xs =
     (let n = int (length xs); lo = slice_bound n a; hi = slice_bound n b
      in take (nat (hi - lo)) (drop (nat lo) xs))"

text \<open>\<open>image[top:bottom, left:right]\<close>\<close>

definition crop_array :: "int \<Rightarrow> int \<Rightarrow> int \<Rightarrow> int \<Rightarrow> 'a list list \<Rightarrow> 'a list list" where
  "crop_array y0 y1 x0 x1 im = map (py_slice x0 x1) (py_slice y0 y1 im)"

text \<open>\<open>int(x)\<close> on a float: truncation toward zero.\<close>

definition py_int :: "real \<Rightarrow> int" where
  "py_int x = (if 0 \<le> x then \<lfloor>x\<rfloor> else \<lceil>x\<rceil>)"

text \<open>
  The result of a binary64 operation whose exact value is \<open>x\<close>: the nearest number
  with a significand of 53 bits, a tie going to the even significand. With
  \<open>2 ^ e \<le> |x| < 2 ^ (e + 1)\<close> the numbers of the format around \<open>x\<close> are the
  multiples of \<open>2 ^ (e - 52)\<close>. Overflow and subnormal numbers are beyond the
  quotients and products of pixel counts and are left out.
\<close>

definition nearest_even :: "real \<Rightarrow> int" where
  "nearest_even y =
     (let f = \<lfloor>y\<rfloor>; d = y - real_of_int f
      in if d < 1 / 2 then f else if 1 / 2 < d then f + 1
         else if even f then f else f + 1)"

definition fl64 :: "real \<Rightarrow> real" where
  "fl64 x =
     (if x = 0 then 0
      else
        (let e = \<lfloor>log 2 \<bar>x\<bar>\<rfloor>;
             q = (if 52 \<le> e then 2 ^ nat (e - 52) else 1 / 2 ^ nat (52 - e))
         in real_of_int (nearest_even (x / q)) * q))"

subsection \<open>The crop dialog\<close>

datatype drag_edge = DragLeft | DragRight | DragTop | DragBottom

datatype button = LeftButton | RightButton | MiddleButton

datatype py_exception = AttributeError | ZeroDivisionError

datatype crop_warning = NoValidImage | RegionOutOfBounds

text \<open>
  The fields of \<open>ImageCropDialog\<close>. \<open>scaled_qt_img\<close> holds the size (width, height) of
  the scaled preview, \<open>None\<close> before the first display; \<open>label_size\<close> is the size of
  \<open>image_label\<close>. \<open>drag_threshold\<close> and \<open>min_crop_size\<close> are never assigned after
  \<open>__init__\<close> and are constants here.
\<close>

record crop_dialog =
  dlg_original_image :: "image option"
  dlg_cropped_image :: "image option"
  is_dragging :: bool
  drag_type :: "drag_edge option"
  crop_left :: int
  crop_top :: int
  crop_right :: int
  crop_bottom :: int
  scaled_qt_img :: "(int \<times> int) option"
  scale_w :: real
  scale_h :: real
  img_offset_x :: int
  img_offset_y :: int
  label_size :: "int \<times> int"

definition drag_threshold :: int where
  "drag_threshold = 10"

definition min_crop_size :: int where
  "min_crop_size = 20"

text \<open>\<open>ImageCropDialog.__init__(parent, image)\<close>, with the label's size.\<close>

definition new_dialog :: "image option \<Rightarrow> int \<times> int \<Rightarrow> crop_dialog" where
  "new_dialog img lsize =
     \<lparr> dlg_original_image = img, dlg_cropped_image = None,
       is_dragging = False, drag_type = None,
       crop_left = 0, crop_top = 0, crop_right = 0, crop_bottom = 0,
       scaled_qt_img = None, scale_w = 1, scale_h = 1,
       img_offset_x = 0, img_offset_y = 0, label_size = lsize \<rparr>"

text \<open>
  \<open>_init_image_display\<close>. The second argument is the size Qt's
  \<open>scaled(label.size(), KeepAspectRatio, SmoothTransformation)\<close> returns for the
  image. \<open>w / width\<close> is Python's true division, which raises on a zero divisor
  and gives the binary64 number nearest to the quotient.
\<close>

definition init_image_display ::
    "crop_dialog \<Rightarrow> int \<times> int \<Rightarrow> py_exception + crop_dialog" where
  "init_image_display d scaled =
     (case dlg_original_image d of
        None \<Rightarrow> Inr d
      | Some im \<Rightarrow>
          (let h = img_height im; w = img_width im;
               img_w = fst scaled; img_h = snd scaled
           in if img_w = 0 \<or> img_h = 0 then Inl ZeroDivisionError
              else Inr (d\<lparr> scaled_qt_img := Some scaled,
                          scale_w := fl64 (real_of_int w / real_of_int img_w),
                          scale_h := fl64 (real_of_int h / real_of_int img_h),
                          img_offset_x := (fst (label_size d) - img_w) div 2,
                          img_offset_y := (snd (label_size d) - img_h) div 2,
                          crop_left := 20,
                          crop_top := 20,
                          crop_right := img_w - 20,
                          crop_bottom := img_h - 20 \<rparr>)))"

text \<open>\<open>_get_valid_image_coords\<close>, given the preview's size.\<close>

definition get_valid_image_coords ::
    "crop_dialog \<Rightarrow> int \<times> int \<Rightarrow> int \<Rightarrow> int \<Rightarrow> int \<times> int" where
  "get_valid_image_coords d scaled mouse_x mouse_y =
     (let img_x = mouse_x - img_offset_x d;
          img_y = mouse_y - img_offset_y d
      in (max 0 (min img_x (fst scaled)), max 0 (min img_y (snd scaled))))"

text \<open>\<open>_judge_drag_type\<close>\<close>

definition judge_drag_type :: "crop_dialog \<Rightarrow> int \<Rightarrow> int \<Rightarrow> drag_edge option" where
  "judge_drag_type d img_x img_y =
     (let left_ok = (\<bar>img_x - crop_left d\<bar> \<le> drag_threshold
                      \<and> crop_top d \<le> img_y \<and> img_y \<le> crop_bottom d);
          right_ok = (\<bar>img_x - crop_right d\<bar> \<le> drag_threshold
                      \<and> crop_top d \<le> img_y \<and> img_y \<le> crop_bottom d);
          top_ok = (\<bar>img_y - crop_top d\<bar> \<le> drag_threshold
                      \<and> crop_left d \<le> img_x \<and> img_x \<le> crop_right d);
          bottom_ok = (\<bar>img_y - crop_bottom d\<bar> \<le> drag_threshold
                      \<and> crop_left d \<le> img_x \<and> img_x \<le> crop_right d)
      in if left_ok then Some DragLeft
         else if right_ok then Some DragRight
         else if top_ok then Some DragTop
         else if bottom_ok then Some DragBottom
         else None)"

text \<open>\<open>_update_crop_coords\<close>, given the preview's size.\<close>

definition update_crop_coords ::
    "crop_dialog \<Rightarrow> int \<times> int \<Rightarrow> int \<Rightarrow> int \<Rightarrow> crop_dialog" where
  "update_crop_coords d scaled img_x img_y =
     (let img_w = fst scaled; img_h = snd scaled
      in case drag_type d of
           Some DragLeft \<Rightarrow>
             d\<lparr>crop_left := max 0 (min img_x (crop_right d - min_crop_size))\<rparr>
         | Some DragRight \<Rightarrow>
             d\<lparr>crop_right := min img_w (max img_x (crop_left d + min_crop_size))\<rparr>
         | Some DragTop \<Rightarrow>
             d\<lparr>crop_top := max 0 (min img_y (crop_bottom d - min_crop_size))\<rparr>
         | Some DragBottom \<Rightarrow>
             d\<lparr>crop_bottom := min img_h (max img_y (crop_top d + min_crop_size))\<rparr>
         | None \<Rightarrow> d)"

text \<open>
  The mouse handlers. Reading the size of \<open>scaled_qt_img\<close> while it is \<open>None\<close> raises
  \<open>AttributeError\<close>. Cursor shapes and the repainting of the rectangle are not part
  of the state.
\<close>

definition on_mouse_press ::
    "crop_dialog \<Rightarrow> button \<Rightarrow> int \<Rightarrow> int \<Rightarrow> py_exception + crop_dialog" where
  "on_mouse_press d b mouse_x mouse_y =
     (if b = LeftButton then
        (case scaled_qt_img d of
           None \<Rightarrow> Inl AttributeError
         | Some scaled \<Rightarrow>
             (let (img_x, img_y) = get_valid_image_coords d scaled mouse_x mouse_y;
                  t = judge_drag_type d img_x img_y
              in Inr (d\<lparr>drag_type := t, is_dragging := (t \<noteq> None)\<rparr>)))
      else Inr d)"

definition on_mouse_move ::
    "crop_dialog \<Rightarrow> int \<Rightarrow> int \<Rightarrow> py_exception + crop_dialog" where
  "on_mouse_move d mouse_x mouse_y =
     (case scaled_qt_img d of
        None \<Rightarrow> Inl AttributeError
      | Some scaled \<Rightarrow>
          (if is_dragging d \<and> drag_type d \<noteq> None then
             (let (img_x, img_y) = get_valid_image_coords d scaled mouse_x mouse_y
              in Inr (update_crop_coords d scaled img_x img_y))
           else Inr d))"

definition on_mouse_release :: "crop_dialog \<Rightarrow> button \<Rightarrow> crop_dialog" where
  "on_mouse_release d b =
     (if b = LeftButton then d\<lparr>is_dragging := False, drag_type := None\<rparr> else d)"

text \<open>A sequence of pointer events, stopped by the first exception.\<close>

datatype mouse_event = Press button int int | Move int int | Release button

fun mouse_step :: "crop_dialog \<Rightarrow> mouse_event \<Rightarrow> py_exception + crop_dialog" where
  "mouse_step d (Press b x y) = on_mouse_press d b x y"
| "mouse_step d (Move x y) = on_mouse_move d x y"
| "mouse_step d (Release b) = Inr (on_mouse_release d b)"

fun mouse_run :: "crop_dialog \<Rightarrow> mouse_event list \<Rightarrow> py_exception + crop_dialog" where
  "mouse_run d [] = Inr d"
| "mouse_run d (e # es) =
     (case mouse_step d e of Inl x \<Rightarrow> Inl x | Inr d' \<Rightarrow> mouse_run d' es)"

text \<open>
  \<open>on_confirm_crop\<close>. \<open>Inl\<close> is the warning box, after which the handler returns with
  the dialog as it was; \<open>Inr\<close> is the dialog after \<open>accept()\<close>, whose
  \<open>dlg_cropped_image\<close> is the array the signal \<open>crop_completed\<close> carries.
\<close>

definition orig_rect :: "crop_dialog \<Rightarrow> int \<times> int \<times> int \<times> int" where
  "orig_rect d =
     (py_int (fl64 (real_of_int (crop_left d) * scale_w d)),
      py_int (fl64 (real_of_int (crop_top d) * scale_h d)),
      py_int (fl64 (real_of_int (crop_right d) * scale_w d)),
      py_int (fl64 (real_of_int (crop_bottom d) * scale_h d)))"

definition on_confirm_crop :: "crop_dialog \<Rightarrow> crop_warning + crop_dialog" where
  "on_confirm_crop d =
     (case (dlg_original_image d, scaled_qt_img d) of
        (Some im, Some _) \<Rightarrow>
          (let (orig_left, orig_top, orig_right, orig_bottom) = orig_rect d;
               orig_h = img_height im; orig_w = img_width im
           in if orig_left < 0 \<or> orig_top < 0 \<or> orig_right > orig_w \<or> orig_bottom > orig_h
              then Inl RegionOutOfBounds
              else Inr (d\<lparr>dlg_cropped_image :=
                            Some (crop_array orig_top orig_bottom orig_left orig_right im)\<rparr>))
      | _ \<Rightarrow> Inl NoValidImage)"

subsection \<open>Contours and their measures\<close>

type_synonym point = "int \<times> int"
type_synonym contour = "point list"

text \<open>
  \<open>cv2.arcLength(contour, closed)\<close>: the sum of the Euclidean lengths of the
  segments between consecutive points, starting from the last point when the curve
  is closed; a curve of at most one point has length 0.
\<close>

definition seg_length :: "point \<Rightarrow> point \<Rightarrow> real" where
  "seg_length p prev =
     sqrt (real_of_int ((fst p - fst prev) * (fst p - fst prev)
                        + (snd p - snd prev) * (snd p - snd prev)))"

fun arc_sum :: "point \<Rightarrow> contour \<Rightarrow> real" where
  "arc_sum prev [] = 0"
| "arc_sum prev (p # ps) = seg_length p prev + arc_sum p ps"

definition arcLength :: "contour \<Rightarrow> bool \<Rightarrow> real" where
  "arcLength c is_closed =
     (if length c \<le> 1 then 0 else arc_sum (if is_closed then last c else hd c) c)"

text \<open>
  \<open>cv2.contourArea(contour)\<close>: half the absolute value of the sum of
  \<open>prev.x * p.y - prev.y * p.x\<close> around the closed polygon.
\<close>

fun cross_sum :: "point \<Rightarrow> contour \<Rightarrow> int" where
  "cross_sum prev [] = 0"
| "cross_sum prev (p # ps) = (fst prev * snd p - snd prev * fst p) + cross_sum p ps"

definition contourArea :: "contour \<Rightarrow> real" where
  "contourArea c = (if c = [] then 0 else \<bar>real_of_int (cross_sum (last c) c)\<bar> / 2)"

text \<open>
  \<open>round(x, ndigits)\<close> on a float: the nearest multiple of \<open>10 ** -ndigits\<close>, a tie
  going to the even one.
\<close>

definition py_round :: "real \<Rightarrow> nat \<Rightarrow> real" where
  "py_round x ndigits =
     (let y = x * 10 ^ ndigits; f = \<lfloor>y\<rfloor>; d = y - real_of_int f;
          k = (if d < 1 / 2 then f else if 1 / 2 < d then f + 1
               else if even f then f else f + 1)
      in real_of_int k / 10 ^ ndigits)"

subsection \<open>The main window\<close>

text \<open>
  What \<open>float(text)\<close> returns: a finite number, an infinity or a NaN. An order
  comparison with a NaN is false.
\<close>

datatype float_value = Finite real | PosInf | NegInf | NaN

fun float_lt_zero :: "float_value \<Rightarrow> bool" where
  "float_lt_zero (Finite r) = (r < 0)"
| "float_lt_zero NegInf = True"
| "float_lt_zero PosInf = False"
| "float_lt_zero NaN = False"

text \<open>\<open>a >= v\<close> for a finite \<open>a\<close>\<close>

fun ge_float :: "real \<Rightarrow> float_value \<Rightarrow> bool" where
  "ge_float a (Finite r) = (r \<le> a)"
| "ge_float a NegInf = True"
| "ge_float a PosInf = False"
| "ge_float a NaN = False"

text \<open>
  The library calls that are not written out: \<open>cv2.findContours(mask,
  RETR_EXTERNAL, CHAIN_APPROX_SIMPLE)\<close>, the entries \<open>m00\<close>, \<open>m10\<close>, \<open>m01\<close> of
  \<open>cv2.moments(contour)\<close>, and \<open>float(text)\<close> with \<open>None\<close> for \<open>ValueError\<close>.
\<close>

record externals =
  findContours :: "gray \<Rightarrow> contour list"
  moments :: "contour \<Rightarrow> real \<times> real \<times> real"
  py_float :: "string \<Rightarrow> float_value option"

text \<open>The dictionaries of \<open>particle_data\<close>.\<close>

record particle =
  index :: int
  perimeter :: real
  area :: real
  circularity :: real

text \<open>
  An annotated image is the copied colour image and the drawing calls made on it, in
  order: \<open>drawContours\<close> with the contour, \<open>putText\<close> with the three rounded numbers
  of the label (circularity, area, perimeter) and its position.
\<close>

datatype draw_op = DrawContours contour | PutText "real \<times> real \<times> real" point

type_synonym canvas = "image \<times> draw_op list"

definition draw :: "canvas \<Rightarrow> draw_op \<Rightarrow> canvas" where
  "draw img op = (fst img, snd img @ [op])"

datatype main_warning = NoBinaryImage | InvalidMinArea | NoImageToSave | NoDataToSave

datatype outcome = Done | Warned main_warning | Raised py_exception

record session =
  original_image_path :: string
  original_image :: "image option"
  cropped_image :: "image option"
  gray_image :: "gray option"
  binary_image :: "gray option"
  processed_image :: "canvas option"
  particle_data :: "particle list"
  current_threshold :: int
  filtered_particle_data :: "particle list option"
  area_threshold_input :: string
  table :: "particle list"
  view2 :: "canvas option"
  view3 :: "canvas option"
  current_index :: nat

text \<open>
  The state after \<open>CircularityCalculator.__init__\<close>. The attribute
  \<open>filtered_particle_data\<close> does not exist until the first filtering.
\<close>

definition new_session :: session where
  "new_session =
     \<lparr> original_image_path = [], original_image = None, cropped_image = None,
       gray_image = None, binary_image = None, processed_image = None,
       particle_data = [], current_threshold = 160, filtered_particle_data = None,
       area_threshold_input = ''0'', table = [], view2 = None, view3 = None,
       current_index = 0 \<rparr>"

text \<open>
  \<open>cv2.threshold(src, thresh, maxval, THRESH_BINARY_INV)\<close> on an 8-bit image:
  a pixel above \<open>thresh\<close> becomes 0, every other pixel \<open>maxval\<close>.
\<close>

definition threshold_binary_inv :: "gray \<Rightarrow> int \<Rightarrow> 8 word \<Rightarrow> gray" where
  "threshold_binary_inv src thresh maxval =
     map (map (\<lambda>p. if uint p > thresh then 0 else maxval)) src"

text \<open>\<open>update_binary_image\<close>\<close>

definition update_binary_image :: "session \<Rightarrow> int \<Rightarrow> session" where
  "update_binary_image s threshold =
     (case gray_image s of
        None \<Rightarrow> s
      | Some g \<Rightarrow> s\<lparr>binary_image := Some (threshold_binary_inv g threshold 255)\<rparr>)"

text \<open>\<open>self.cropped_image if self.cropped_image is not None else self.original_image\<close>\<close>

definition target_original :: "session \<Rightarrow> image option" where
  "target_original s =
     (case cropped_image s of Some c \<Rightarrow> Some c | None \<Rightarrow> original_image s)"

text \<open>The label drawn at the centroid, when \<open>m00\<close> is positive.\<close>

definition put_label ::
    "externals \<Rightarrow> contour \<Rightarrow> real \<Rightarrow> real \<Rightarrow> real \<Rightarrow> canvas \<Rightarrow> canvas" where
  "put_label ext contour c a l img =
     (case moments ext contour of (m00, m10, m01) \<Rightarrow>
        if m00 > 0
        then draw img (PutText (py_round c 4, py_round a 4, py_round l 4)
                               (py_int (m10 / m00), py_int (m01 / m00)))
        else img)"

text \<open>
  The loop of \<open>goto_page2\<close> over \<open>enumerate(contours, 1)\<close>, on the pair of
  \<open>particle_data\<close> and \<open>processed_image\<close>.
\<close>

fun extract_loop ::
    "externals \<Rightarrow> int \<Rightarrow> contour list \<Rightarrow> particle list \<times> canvas \<Rightarrow> particle list \<times> canvas" where
  "extract_loop ext idx [] acc = acc"
| "extract_loop ext idx (contour # rest) (pd, img) =
     (let p = arcLength contour True; a = contourArea contour
      in if p \<le> 0 \<or> a \<le> 0 then extract_loop ext (idx + 1) rest (pd, img)
         else
           (let c = (4 * pi * a) / (p ^ 2);
                pd' = pd @ [\<lparr> index = idx, perimeter = py_round p 4,
                              area = py_round a 4, circularity = py_round c 4 \<rparr>];
                img' = put_label ext contour c a p (draw img (DrawContours contour))
            in extract_loop ext (idx + 1) rest (pd', img')))"

text \<open>
  \<open>goto_page2\<close>. \<open>particle_data\<close> is emptied before \<open>target_original.copy()\<close> can
  raise.
\<close>

definition goto_page2 :: "externals \<Rightarrow> session \<Rightarrow> outcome \<times> session" where
  "goto_page2 ext s =
     (case binary_image s of
        None \<Rightarrow> (Warned NoBinaryImage, s)
      | Some b \<Rightarrow>
          (let contours = findContours ext b;
               s1 = s\<lparr>particle_data := []\<rparr>
           in case target_original s of
                None \<Rightarrow> (Raised AttributeError, s1)
              | Some t \<Rightarrow>
                  (let (pd, img) = extract_loop ext 1 contours ([], (t, []))
                   in (Done, s1\<lparr> particle_data := pd, processed_image := Some img,
                                  view2 := Some img, table := pd,
                                  current_index := 1 \<rparr>))))"

text \<open>The drawing loop of \<open>filter_particles\<close> over \<open>filtered_contours\<close>.\<close>

fun redraw_loop :: "externals \<Rightarrow> contour list \<Rightarrow> canvas \<Rightarrow> canvas" where
  "redraw_loop ext [] img = img"
| "redraw_loop ext (contour # rest) img =
     (let img1 = draw img (DrawContours contour);
          p = arcLength contour True;
          a = contourArea contour;
          c = (if p > 0 then (4 * pi * a) / (p ^ 2) else 0)
      in redraw_loop ext rest (put_label ext contour c a p img1))"

text \<open>\<open>filter_particles\<close>\<close>

definition filter_particles :: "externals \<Rightarrow> session \<Rightarrow> outcome \<times> session" where
  "filter_particles ext s =
     (case py_float ext (area_threshold_input s) of
        None \<Rightarrow> (Warned InvalidMinArea, s)
      | Some min_area \<Rightarrow>
          if float_lt_zero min_area then (Warned InvalidMinArea, s)
          else
            (let filtered_data = filter (\<lambda>item. ge_float (area item) min_area) (particle_data s)
             in case target_original s of
                  None \<Rightarrow> (Raised AttributeError, s)
                | Some t \<Rightarrow>
                    (case binary_image s of
                       None \<Rightarrow> (Raised AttributeError, s\<lparr>processed_image := Some (t, [])\<rparr>)
                     | Some b \<Rightarrow>
                         (let contours = findContours ext b;
                              filtered_contours =
                                filter (\<lambda>contour. ge_float (contourArea contour) min_area) contours;
                              img = redraw_loop ext filtered_contours (t, [])
                          in (Done, s\<lparr> processed_image := Some img,
                                        table := filtered_data,
                                        view3 := Some img,
                                        filtered_particle_data := Some filtered_data,
                                        current_index := 2 \<rparr>)))))"

text \<open>
  \<open>save_processed_csv\<close>. The second argument is the path the save dialog returns,
  empty when the operator cancels. The file is what \<open>csv.writer\<close> is given: the
  encoding it is opened with and the rows in order, a cell being the Python value
  passed to \<open>writerow\<close>. The header's four labels are the UTF-8 bytes of the Chinese
  words for serial number, perimeter, area and circularity.
\<close>

datatype cell = CStr string | CInt int | CFloat real

record csv_file =
  csv_path :: string
  csv_encoding :: string
  csv_rows :: "cell list list"

definition csv_header :: "cell list" where
  "csv_header =
     [CStr [CHR 0xE5, CHR 0xBA, CHR 0x8F, CHR 0xE5, CHR 0x8F, CHR 0xB7],
      CStr [CHR 0xE5, CHR 0x91, CHR 0xA8, CHR 0xE9, CHR 0x95, CHR 0xBF],
      CStr [CHR 0xE9, CHR 0x9D, CHR 0xA2, CHR 0xE7, CHR 0xA7, CHR 0xAF],
      CStr [CHR 0xE5, CHR 0x9C, CHR 0x86, CHR 0xE5, CHR 0xBD, CHR 0xA2,
            CHR 0xE5, CHR 0xBA, CHR 0xA6]]"

definition csv_row :: "particle \<Rightarrow> cell list" where
  "csv_row item =
     [CInt (index item), CFloat (perimeter item), CFloat (area item),
      CFloat (circularity item)]"

definition save_processed_csv :: "session \<Rightarrow> string \<Rightarrow> main_warning + csv_file option" where
  "save_processed_csv s save_path =
     (case filtered_particle_data s of
        None \<Rightarrow> Inl NoDataToSave
      | Some filtered \<Rightarrow>
          if original_image_path s = [] then Inl NoDataToSave
          else if save_path = [] then Inr None
          else Inr (Some \<lparr> csv_path = save_path, csv_encoding = ''utf-8-sig'',
                            csv_rows = csv_header # map csv_row filtered \<rparr>))"

section \<open>The properties\<close>

subsection \<open>Notions of the specification\<close>

text \<open>
  A position qualifies for an edge when it is within 10 units of the edge and its
  other coordinate is inside the span of the opposite pair; the edges are tried in
  the order left, right, top, bottom.
\<close>

definition near_edge :: "crop_dialog \<Rightarrow> drag_edge \<Rightarrow> int \<Rightarrow> int \<Rightarrow> bool" where
  "near_edge d e x y =
     (case e of
        DragLeft \<Rightarrow> \<bar>x - crop_left d\<bar> \<le> 10 \<and> crop_top d \<le> y \<and> y \<le> crop_bottom d
      | DragRight \<Rightarrow> \<bar>x - crop_right d\<bar> \<le> 10 \<and> crop_top d \<le> y \<and> y \<le> crop_bottom d
      | DragTop \<Rightarrow> \<bar>y - crop_top d\<bar> \<le> 10 \<and> crop_left d \<le> x \<and> x \<le> crop_right d
      | DragBottom \<Rightarrow> \<bar>y - crop_bottom d\<bar> \<le> 10 \<and> crop_left d \<le> x \<and> x \<le> crop_right d)"

definition edge_priority :: "drag_edge list" where
  "edge_priority = [DragLeft, DragRight, DragTop, DragBottom]"

text \<open>
  The rectangle lies in the preview and is at least 20 units wide and high.
\<close>

definition crop_inv :: "crop_dialog \<Rightarrow> bool" where
  "crop_inv d =
     (case scaled_qt_img d of
        None \<Rightarrow> False
      | Some (img_w, img_h) \<Rightarrow>
          0 \<le> crop_left d \<and> crop_left d + 20 \<le> crop_right d \<and> crop_right d \<le> img_w \<and>
          0 \<le> crop_top d \<and> crop_top d + 20 \<le> crop_bottom d \<and> crop_bottom d \<le> img_h)"

text \<open>
  Clamping into an interval, and the dialog after one edge has been clamped; the
  other three edges and every other field are those of \<open>d\<close>.
\<close>

definition clamp :: "int \<Rightarrow> int \<Rightarrow> int \<Rightarrow> int" where
  "clamp lo hi x = (if x < lo then lo else if hi < x then hi else x)"

definition moved_edge :: "crop_dialog \<Rightarrow> int \<times> int \<Rightarrow> drag_edge \<Rightarrow> int \<times> int \<Rightarrow> crop_dialog" where
  "moved_edge d scaled e xy =
     (case e of
        DragLeft \<Rightarrow> d\<lparr>crop_left := clamp 0 (crop_right d - 20) (fst xy)\<rparr>
      | DragRight \<Rightarrow> d\<lparr>crop_right := clamp (crop_left d + 20) (fst scaled) (fst xy)\<rparr>
      | DragTop \<Rightarrow> d\<lparr>crop_top := clamp 0 (crop_bottom d - 20) (snd xy)\<rparr>
      | DragBottom \<Rightarrow> d\<lparr>crop_bottom := clamp (crop_top d + 20) (snd scaled) (snd xy)\<rparr>)"

text \<open>
  \<open>k\<close> is \<open>x\<close> truncated: the integer part of \<open>x\<close>, with its sign.
\<close>

definition truncation_of :: "real \<Rightarrow> int \<Rightarrow> bool" where
  "truncation_of x k =
     (\<bar>real_of_int k\<bar> \<le> \<bar>x\<bar> \<and> \<bar>x\<bar> < \<bar>real_of_int k\<bar> + 1 \<and> 0 \<le> real_of_int k * x)"

definition rect_within :: "int \<times> int \<times> int \<times> int \<Rightarrow> int \<Rightarrow> int \<Rightarrow> bool" where
  "rect_within rect w h =
     (case rect of (l, t, r, b) \<Rightarrow>
        0 \<le> l \<and> l \<le> w \<and> 0 \<le> r \<and> r \<le> w \<and> 0 \<le> t \<and> t \<le> h \<and> 0 \<le> b \<and> b \<le> h)"

definition sub_image :: "int \<times> int \<times> int \<times> int \<Rightarrow> 'a list list \<Rightarrow> 'a list list" where
  "sub_image rect im =
     (case rect of (l, t, r, b) \<Rightarrow>
        map (\<lambda>row. take (nat (r - l)) (drop (nat l) row)) (take (nat (b - t)) (drop (nat t) im)))"

subsection \<open>Sample states\<close>

text \<open>
  \<open>np.zeros((h, w, 3))\<close>. The first dialog shows an image of 200 by 100 pixels in a
  label of 780 by 545, enlarged to 780 by 390. The second shows an image of 30 by
  545 pixels, which fits the label's height as it is.
\<close>

definition blank :: "nat \<Rightarrow> nat \<Rightarrow> image" where
  "blank w h = replicate h (replicate w (0, 0, 0))"

definition wide_dialog :: crop_dialog where
  "wide_dialog =
     \<lparr> dlg_original_image = Some (blank 200 100), dlg_cropped_image = None,
       is_dragging = False, drag_type = None,
       crop_left = 20, crop_top = 20, crop_right = 760, crop_bottom = 370,
       scaled_qt_img = Some (780, 390), scale_w = fl64 (10 / 39), scale_h = fl64 (10 / 39),
       img_offset_x = 0, img_offset_y = 77, label_size = (780, 545) \<rparr>"

definition narrow_dialog :: crop_dialog where
  "narrow_dialog =
     \<lparr> dlg_original_image = Some (blank 30 545), dlg_cropped_image = None,
       is_dragging = False, drag_type = None,
       crop_left = 20, crop_top = 20, crop_right = 10, crop_bottom = 525,
       scaled_qt_img = Some (30, 545), scale_w = 1, scale_h = 1,
       img_offset_x = 375, img_offset_y = 0, label_size = (780, 545) \<rparr>"

text \<open>Every row has the width of the first, as in a NumPy array.\<close>

definition rectangular :: "'a list list \<Rightarrow> bool" where
  "rectangular im = (\<forall>row \<in> set im. int (length row) = img_width im)"

text \<open>
  The third dialog shows an image of 18 by 545 pixels, which fits the label's height
  as it is.
\<close>

definition thin_dialog :: crop_dialog where
  "thin_dialog =
     \<lparr> dlg_original_image = Some (blank 18 545), dlg_cropped_image = None,
       is_dragging = False, drag_type = None,
       crop_left = 20, crop_top = 20, crop_right = - 2, crop_bottom = 525,
       scaled_qt_img = Some (18, 545), scale_w = 1, scale_h = 1,
       img_offset_x = 381, img_offset_y = 0, label_size = (780, 545) \<rparr>"

text \<open>Python's \<open>enumerate(xs, start)\<close>\<close>

fun enumerate_from :: "int \<Rightarrow> 'a list \<Rightarrow> (int \<times> 'a) list" where
  "enumerate_from i [] = []"
| "enumerate_from i (x # xs) = (i, x) # enumerate_from (i + 1) xs"

text \<open>
  The positivity check, and the record of a contour found at position \<open>i\<close>: its
  perimeter, area and circularity \<open>4 * pi * area / perimeter ** 2\<close>, each rounded to 4
  decimals.
\<close>

definition accepted :: "contour \<Rightarrow> bool" where
  "accepted c = (0 < arcLength c True \<and> 0 < contourArea c)"

definition particle_of :: "int \<times> contour \<Rightarrow> particle" where
  "particle_of ic =
     \<lparr> index = fst ic,
       perimeter = py_round (arcLength (snd ic) True) 4,
       area = py_round (contourArea (snd ic)) 4,
       circularity =
         py_round ((4 * pi * contourArea (snd ic)) / (arcLength (snd ic) True) ^ 2) 4 \<rparr>"

text \<open>The contours drawn on an annotated image, in drawing order.\<close>

fun contour_of :: "draw_op \<Rightarrow> contour list" where
  "contour_of (DrawContours c) = [c]"
| "contour_of (PutText txt pos) = []"

definition drawn_contours :: "canvas \<Rightarrow> contour list" where
  "drawn_contours img = concat (map contour_of (snd img))"

text \<open>A number with at most 4 decimals.\<close>

definition rounded4 :: "real \<Rightarrow> bool" where
  "rounded4 x = (x * 10 ^ 4 = real_of_int \<lfloor>x * 10 ^ 4\<rfloor>)"

text \<open>
  A grayscale image of 7 by 7 pixels, white with a dark block of 3 by 3 pixels in the
  upper left corner and one dark pixel at column 5 of row 5; the colour image it
  comes from; the two contours of its mask at threshold 160, the single pixel found
  first; the library calls on these values, \<open>float()\<close> on the texts used below.
\<close>

definition sample_gray :: gray where
  "sample_gray =
     [[0, 0, 0, 255, 255, 255, 255],
      [0, 0, 0, 255, 255, 255, 255],
      [0, 0, 0, 255, 255, 255, 255],
      [255, 255, 255, 255, 255, 255, 255],
      [255, 255, 255, 255, 255, 255, 255],
      [255, 255, 255, 255, 255, 0, 255],
      [255, 255, 255, 255, 255, 255, 255]]"

definition sample_image :: image where
  "sample_image = map (map (\<lambda>g. (g, g, g))) sample_gray"

definition block_contour :: contour where
  "block_contour = [(0, 0), (0, 2), (2, 2), (2, 0)]"

definition dot_contour :: contour where
  "dot_contour = [(5, 5)]"

definition sample_ext :: externals where
  "sample_ext =
     \<lparr> findContours =
         (\<lambda>m. if m = threshold_binary_inv sample_gray 160 255
               then [dot_contour, block_contour] else []),
       moments = (\<lambda>c. if c = block_contour then (4, 4, 4) else (0, 0, 0)),
       py_float =
         (\<lambda>txt. if txt = ''0'' then Some (Finite 0)
                 else if txt = ''4'' then Some (Finite 4)
                 else if txt = ''-1'' then Some (Finite (- 1))
                 else if txt = ''nan'' then Some NaN
                 else None) \<rparr>"

text \<open>The session after \<open>upload_image\<close> has read the sample image.\<close>

definition loaded_session :: session where
  "loaded_session =
     update_binary_image
       (new_session\<lparr> original_image_path := ''grains.png'',
                     original_image := Some sample_image,
                     gray_image := Some sample_gray \<rparr>) 160"

text \<open>The session after \<open>goto_page2\<close> on the sample image.\<close>

definition analysed_session :: session where
  "analysed_session = snd (goto_page2 sample_ext loaded_session)"

text \<open>A session that holds only a grayscale image.\<close>

definition gray_session :: "gray \<Rightarrow> session" where
  "gray_session g = new_session\<lparr>gray_image := Some g\<rparr>"

text \<open>The header the specification names.\<close>

definition claimed_header :: "cell list" where
  "claimed_header = [CStr ''index'', CStr ''perimeter'', CStr ''area'', CStr ''circularity'']"

text \<open>The session after \<open>filter_particles\<close> with the minimum area 0.\<close>

definition filtered_session :: session where
  "filtered_session = snd (filter_particles sample_ext analysed_session)"

section \<open>Proofs\<close>

subsection \<open>Rounding to binary64\<close>

lemma nearest_even_of_int [simp]: "nearest_even (real_of_int k) = k"
  by (simp add: nearest_even_def)

lemma floor_log2_pos:
  assumes "2 ^ n \<le> x" "x < 2 * 2 ^ n"
  shows "\<lfloor>log 2 x\<rfloor> = int n"
proof -
  have x: "0 < x" using assms(1) by (smt (verit) zero_less_power)
  have "real n \<le> log 2 x"
    using assms(1) x by (simp add: le_log_iff powr_realpow)
  moreover have "log 2 x < real n + 1"
    using assms(2) x by (simp add: log_less_iff powr_add powr_realpow mult.commute)
  ultimately show ?thesis by (simp add: floor_unique)
qed

lemma floor_log2_neg:
  assumes "1 / 2 ^ n \<le> x" "x < 2 / 2 ^ n"
  shows "\<lfloor>log 2 x\<rfloor> = - int n"
proof -
  have x: "0 < x" using assms(1) by (smt (verit) zero_less_power divide_pos_pos)
  have p1: "2 powr (- real n) = 1 / 2 ^ n" by (simp add: powr_minus powr_realpow divide_simps)
  have p2: "2 powr (1 - real n) = 2 / 2 ^ n" by (simp add: powr_diff powr_realpow)
  have "2 powr (- real n) \<le> x" using assms(1) p1 by simp
  then have "- real n \<le> log 2 x"
    using x by (simp add: le_log_iff)
  moreover have "x < 2 powr (1 - real n)" using assms(2) p2 by simp
  then have "log 2 x < 1 - real n"
    using x by (simp add: log_less_iff)
  ultimately show ?thesis by (simp add: floor_unique)
qed

lemma fl64_eval_pos:
  assumes "2 ^ n \<le> \<bar>x\<bar>" "\<bar>x\<bar> < 2 * 2 ^ n" "n \<le> 52"
  shows "fl64 x = real_of_int (nearest_even (x * 2 ^ (52 - n))) / 2 ^ (52 - n)"
proof -
  have x: "0 < \<bar>x\<bar>" using assms(1) by (smt (verit) zero_less_power)
  have e: "\<lfloor>log 2 \<bar>x\<bar>\<rfloor> = int n" using assms floor_log2_pos [of n "\<bar>x\<bar>"] by simp
  have n: "nat (52 - int n) = 52 - n" by simp
  have nz: "x \<noteq> 0" using x by simp
  show ?thesis
  proof (cases "n = 52")
    case True
    then show ?thesis unfolding fl64_def Let_def e using nz by simp
  next
    case False
    then have "\<not> 52 \<le> int n" using assms(3) by simp
    then show ?thesis unfolding fl64_def Let_def e using nz by (simp add: n)
  qed
qed

lemma fl64_eval_neg:
  assumes "1 / 2 ^ n \<le> \<bar>x\<bar>" "\<bar>x\<bar> < 2 / 2 ^ n"
  shows "fl64 x = real_of_int (nearest_even (x * 2 ^ (52 + n))) / 2 ^ (52 + n)"
proof -
  have x: "0 < \<bar>x\<bar>" using assms(1) by (smt (verit) zero_less_power divide_pos_pos)
  have e: "\<lfloor>log 2 \<bar>x\<bar>\<rfloor> = - int n" using assms floor_log2_neg [of n "\<bar>x\<bar>"] by simp
  have n: "nat (52 + int n) = 52 + n" by simp
  have nz: "x \<noteq> 0" using x by simp
  show ?thesis
  proof (cases "n = 0")
    case True
    then show ?thesis unfolding fl64_def Let_def e using nz by simp
  next
    case False
    then have "\<not> 52 \<le> - int n" by simp
    then show ?thesis unfolding fl64_def Let_def e using nz by (simp add: n)
  qed
qed

lemma fl64_of_int_small:
  assumes "2 ^ n \<le> \<bar>k\<bar>" "\<bar>k\<bar> < 2 * 2 ^ n" "n \<le> 52"
  shows "fl64 (real_of_int k) = real_of_int k"
proof -
  have "real_of_int (2 ^ n) \<le> real_of_int \<bar>k\<bar>"
    using assms(1) of_int_le_iff by blast
  then have a: "2 ^ n \<le> \<bar>real_of_int k\<bar>" by simp
  have "real_of_int \<bar>k\<bar> < real_of_int (2 * 2 ^ n)"
    using assms(2) of_int_less_iff by blast
  then have b: "\<bar>real_of_int k\<bar> < 2 * 2 ^ n" by simp
  have m: "real_of_int k * 2 ^ (52 - n) = real_of_int (k * 2 ^ (52 - n))" by simp
  have "fl64 (real_of_int k) = real_of_int (k * 2 ^ (52 - n)) / 2 ^ (52 - n)"
    unfolding fl64_eval_pos [OF a b assms(3)] m nearest_even_of_int ..
  also have "\<dots> = real_of_int k" by simp
  finally show ?thesis .
qed

lemma fl64_1: "fl64 1 = 1"
  using fl64_of_int_small [of 0 1] by simp

lemma fl64_20: "fl64 20 = 20"
  using fl64_of_int_small [of 4 20] by simp

lemma fl64_525: "fl64 525 = 525"
  using fl64_of_int_small [of 9 525] by simp

lemma fl64_minus_2: "fl64 (- 2) = - 2"
  using fl64_of_int_small [of 1 "- 2"] by simp

text \<open>
  The scale factor of an image 200 pixels wide in a preview 780 units wide, and its
  product with 780: the quotient is rounded down, and the product stays below 200.
\<close>

lemma nearest_even_scale: "nearest_even (10 / 39 * 2 ^ 54) = 4619076540892816"
proof -
  have f: "\<lfloor>(10::real) / 39 * 2 ^ 54\<rfloor> = 4619076540892816" by simp
  show ?thesis unfolding nearest_even_def Let_def f by simp
qed

lemma fl64_scale: "fl64 (10 / 39) = 4619076540892816 / 2 ^ 54"
proof -
  have "fl64 (10 / 39) = real_of_int (nearest_even (10 / 39 * 2 ^ (52 + 2))) / 2 ^ (52 + 2)"
    by (rule fl64_eval_neg) simp_all
  then show ?thesis using nearest_even_scale by simp
qed

lemma nearest_even_right_edge: "nearest_even (780 * (4619076540892816 / 2 ^ 54) * 2 ^ 45) = 7036874417766399"
proof -
  have f: "\<lfloor>(780::real) * (4619076540892816 / 2 ^ 54) * 2 ^ 45\<rfloor> = 7036874417766399" by simp
  show ?thesis unfolding nearest_even_def Let_def f by simp
qed

lemma fl64_right_edge: "fl64 (780 * (4619076540892816 / 2 ^ 54)) = 7036874417766399 / 2 ^ 45"
proof -
  have "fl64 (780 * (4619076540892816 / 2 ^ 54))
          = real_of_int (nearest_even (780 * (4619076540892816 / 2 ^ 54) * 2 ^ (52 - 7))) / 2 ^ (52 - 7)"
    by (rule fl64_eval_pos) simp_all
  then show ?thesis using nearest_even_right_edge by simp
qed

subsection \<open>The crop dialog\<close>

lemma judge_find: "judge_drag_type d x y = find (\<lambda>e. near_edge d e x y) edge_priority"
  unfolding judge_drag_type_def Let_def edge_priority_def drag_threshold_def
  by (simp only: List.find.simps near_edge_def drag_edge.case)

lemma ex_near: "(\<exists>e. near_edge d e x y) \<longleftrightarrow> find (\<lambda>e. near_edge d e x y) edge_priority \<noteq> None"
proof -
  have "set edge_priority = UNIV"
    using drag_edge.exhaust by (auto simp: edge_priority_def)
  then show ?thesis by (auto simp: find_None_iff)
qed

lemma img_height_blank: "img_height (blank w h) = int h"
  by (simp add: img_height_def blank_def)

lemma img_width_blank: "0 < h \<Longrightarrow> img_width (blank w h) = int w"
  by (cases h) (simp_all add: img_width_def blank_def)

lemma wide_dialog_shown:
  "init_image_display (new_dialog (Some (blank 200 100)) (780, 545)) (780, 390) = Inr wide_dialog"
  by (simp add: init_image_display_def new_dialog_def wide_dialog_def img_height_blank
        img_width_blank)

lemma narrow_dialog_shown:
  "init_image_display (new_dialog (Some (blank 30 545)) (780, 545)) (30, 545) = Inr narrow_dialog"
  by (simp add: init_image_display_def new_dialog_def narrow_dialog_def img_height_blank
        img_width_blank fl64_1)

lemma wide_inv: "crop_inv wide_dialog"
  by (simp add: crop_inv_def wide_dialog_def)

text \<open>
  C7. A press of the left button puts the dialog into the dragging state exactly
  when the position, clamped into the preview, is within 10 units of an edge with
  its other coordinate inside the span of the opposite pair; the edge chosen is
  the first that qualifies in the order left, right, top, bottom. Nothing else of
  the dialog changes.
\<close>

theorem drag_entry_priority:
  "judge_drag_type d x y = find (\<lambda>e. near_edge d e x y) edge_priority
   \<and> (\<forall>scaled mx my. scaled_qt_img d = Some scaled \<longrightarrow>
        (\<exists>d'. on_mouse_press d LeftButton mx my = Inr d'
           \<and> drag_type d' =
               find (\<lambda>e. near_edge d e (fst (get_valid_image_coords d scaled mx my))
                                       (snd (get_valid_image_coords d scaled mx my)))
                    edge_priority
           \<and> is_dragging d' =
               (\<exists>e. near_edge d e (fst (get_valid_image_coords d scaled mx my))
                                   (snd (get_valid_image_coords d scaled mx my)))
           \<and> d' = d\<lparr>drag_type := drag_type d', is_dragging := is_dragging d'\<rparr>))"
proof (intro conjI allI impI)
  show "judge_drag_type d x y = find (\<lambda>e. near_edge d e x y) edge_priority"
    by (rule judge_find)
next
  fix scaled mx my
  assume sc: "scaled_qt_img d = Some scaled"
  obtain ix iy where c: "get_valid_image_coords d scaled mx my = (ix, iy)"
    by (cases "get_valid_image_coords d scaled mx my")
  let ?t = "judge_drag_type d ix iy"
  have p: "on_mouse_press d LeftButton mx my = Inr (d\<lparr>drag_type := ?t, is_dragging := (?t \<noteq> None)\<rparr>)"
    by (simp add: on_mouse_press_def sc c Let_def)
  show "\<exists>d'. on_mouse_press d LeftButton mx my = Inr d'
           \<and> drag_type d' =
               find (\<lambda>e. near_edge d e (fst (get_valid_image_coords d scaled mx my))
                                       (snd (get_valid_image_coords d scaled mx my)))
                    edge_priority
           \<and> is_dragging d' =
               (\<exists>e. near_edge d e (fst (get_valid_image_coords d scaled mx my))
                                   (snd (get_valid_image_coords d scaled mx my)))
           \<and> d' = d\<lparr>drag_type := drag_type d', is_dragging := is_dragging d'\<rparr>"
    unfolding p c by (simp add: judge_find ex_near)
qed

theorem drag_entry_priority_witness:
  "scaled_qt_img wide_dialog = Some (780, 390)
   \<and> near_edge wide_dialog DragLeft 20 20 \<and> near_edge wide_dialog DragTop 20 20
   \<and> on_mouse_press wide_dialog LeftButton 20 97
        = Inr (wide_dialog\<lparr>drag_type := Some DragLeft, is_dragging := True\<rparr>)"
proof -
  have sc: "scaled_qt_img wide_dialog = Some (780, 390)"
    by (simp add: wide_dialog_def)
  have c: "get_valid_image_coords wide_dialog (780, 390) 20 97 = (20, 20)"
    by (simp add: get_valid_image_coords_def wide_dialog_def)
  have n: "near_edge wide_dialog DragLeft 20 20" "near_edge wide_dialog DragTop 20 20"
    by (simp_all add: near_edge_def wide_dialog_def)
  note inst = drag_entry_priority [of wide_dialog 20 20, THEN conjunct2, rule_format, OF sc, of 20 97]
  from inst obtain d'
    where p: "on_mouse_press wide_dialog LeftButton 20 97 = Inr d'"
      and t: "drag_type d' = find (\<lambda>e. near_edge wide_dialog e 20 20) edge_priority"
      and g: "is_dragging d' = (\<exists>e. near_edge wide_dialog e 20 20)"
      and e: "d' = wide_dialog\<lparr>drag_type := drag_type d', is_dragging := is_dragging d'\<rparr>"
    unfolding c fst_conv snd_conv by blast
  have "drag_type d' = Some DragLeft" using t n by (simp add: edge_priority_def)
  moreover have "is_dragging d'" using g n by blast
  ultimately have "d' = wide_dialog\<lparr>drag_type := Some DragLeft, is_dragging := True\<rparr>"
    using e by simp
  then show ?thesis using sc n p by simp
qed

lemma crop_inv_drag_fields [simp]:
  "crop_inv (d\<lparr>is_dragging := b\<rparr>) = crop_inv d"
  "crop_inv (d\<lparr>drag_type := t\<rparr>) = crop_inv d"
  by (simp_all add: crop_inv_def split: option.splits prod.splits)

lemma update_crop_coords_clamp:
  assumes "crop_inv d" "scaled_qt_img d = Some scaled" "drag_type d = Some e"
  shows "update_crop_coords d scaled x y = moved_edge d scaled e (x, y)"
  using assms
  by (cases scaled; cases e)
     (auto simp: crop_inv_def update_crop_coords_def moved_edge_def clamp_def min_crop_size_def
                 Let_def max_def min_def)

lemma moved_edge_inv:
  assumes "crop_inv d" "scaled_qt_img d = Some scaled"
  shows "crop_inv (moved_edge d scaled e xy)"
  using assms
  by (cases scaled; cases e) (auto simp: crop_inv_def moved_edge_def clamp_def)

lemma on_mouse_move_inv:
  assumes "crop_inv d"
  shows "\<exists>d'. on_mouse_move d mx my = Inr d' \<and> crop_inv d'"
proof -
  from assms obtain scaled where sc: "scaled_qt_img d = Some scaled"
    by (auto simp: crop_inv_def split: option.splits)
  show ?thesis
  proof (cases "is_dragging d \<and> drag_type d \<noteq> None")
    case True
    then obtain e where e: "drag_type d = Some e" by auto
    obtain ix iy where c: "get_valid_image_coords d scaled mx my = (ix, iy)"
      by (cases "get_valid_image_coords d scaled mx my")
    have "on_mouse_move d mx my = Inr (moved_edge d scaled e (ix, iy))"
      using True by (simp add: on_mouse_move_def sc c update_crop_coords_clamp [OF assms sc e])
    then show ?thesis using moved_edge_inv [OF assms sc] by simp
  next
    case False
    then have "on_mouse_move d mx my = Inr d"
      by (auto simp: on_mouse_move_def sc)
    then show ?thesis using assms by simp
  qed
qed

lemma on_mouse_press_inv:
  assumes "crop_inv d"
  shows "\<exists>d'. on_mouse_press d b mx my = Inr d' \<and> crop_inv d'"
proof -
  from assms obtain scaled where sc: "scaled_qt_img d = Some scaled"
    by (auto simp: crop_inv_def split: option.splits)
  show ?thesis using assms
    by (cases b) (simp_all add: on_mouse_press_def sc Let_def split: prod.splits)
qed

lemma on_mouse_release_inv: "crop_inv d \<Longrightarrow> crop_inv (on_mouse_release d b)"
  by (simp add: on_mouse_release_def)

lemma mouse_step_inv:
  assumes "crop_inv d"
  shows "\<exists>d'. mouse_step d ev = Inr d' \<and> crop_inv d'"
  using assms
  by (cases ev) (simp_all add: on_mouse_press_inv on_mouse_move_inv on_mouse_release_inv)

lemma mouse_run_inv:
  "crop_inv d \<Longrightarrow> \<exists>d'. mouse_run d evs = Inr d' \<and> crop_inv d'"
proof (induction evs arbitrary: d)
  case Nil
  then show ?case by simp
next
  case (Cons ev evs)
  from mouse_step_inv [OF Cons.prems] obtain d1
    where s: "mouse_step d ev = Inr d1" and i: "crop_inv d1" by blast
  from Cons.IH [OF i] show ?case by (simp add: s)
qed

lemma crop_inv_min_size:
  "crop_inv d \<Longrightarrow> crop_right d - crop_left d \<ge> 20 \<and> crop_bottom d - crop_top d \<ge> 20
     \<and> crop_left d \<le> crop_right d - min_crop_size"
  by (auto simp: crop_inv_def min_crop_size_def split: option.splits)

text \<open>
  In a dialog whose rectangle lies in the preview and is at least 20 units wide and
  high, a pointer move while an edge is dragged clamps that edge between 0 (for the
  right and bottom edge: the preview's extent) and the opposite edge offset by 20,
  and changes nothing else; the rectangle then still lies in the preview and is at
  least 20 units wide and high. So after every sequence of pointer events no
  handler has raised, both sizes are at least 20 and the left edge is at most the
  right edge minus the minimum crop size.
\<close>

theorem drag_keeps_min_size:
  assumes "crop_inv d"
  shows "(\<forall>scaled e mx my.
            scaled_qt_img d = Some scaled \<and> is_dragging d \<and> drag_type d = Some e \<longrightarrow>
              on_mouse_move d mx my
                = Inr (moved_edge d scaled e (get_valid_image_coords d scaled mx my))
              \<and> crop_inv (moved_edge d scaled e (get_valid_image_coords d scaled mx my)))
       \<and> (\<forall>evs. \<exists>d'. mouse_run d evs = Inr d' \<and> crop_inv d'
              \<and> crop_right d' - crop_left d' \<ge> 20 \<and> crop_bottom d' - crop_top d' \<ge> 20
              \<and> crop_left d' \<le> crop_right d' - min_crop_size)"
proof (intro conjI allI impI)
  fix scaled e mx my
  assume h: "scaled_qt_img d = Some scaled \<and> is_dragging d \<and> drag_type d = Some e"
  obtain ix iy where c: "get_valid_image_coords d scaled mx my = (ix, iy)"
    by (cases "get_valid_image_coords d scaled mx my")
  show "on_mouse_move d mx my
          = Inr (moved_edge d scaled e (get_valid_image_coords d scaled mx my))"
    using h by (simp add: on_mouse_move_def c update_crop_coords_clamp [OF assms])
  show "crop_inv (moved_edge d scaled e (get_valid_image_coords d scaled mx my))"
    using h moved_edge_inv [OF assms] by blast
next
  fix evs
  from mouse_run_inv [OF assms] obtain d' where "mouse_run d evs = Inr d'" "crop_inv d'"
    by blast
  then show "\<exists>d'. mouse_run d evs = Inr d' \<and> crop_inv d'
              \<and> crop_right d' - crop_left d' \<ge> 20 \<and> crop_bottom d' - crop_top d' \<ge> 20
              \<and> crop_left d' \<le> crop_right d' - min_crop_size"
    using crop_inv_min_size by blast
qed

theorem drag_keeps_min_size_witness:
  "crop_inv wide_dialog
   \<and> on_mouse_move (wide_dialog\<lparr>is_dragging := True, drag_type := Some DragLeft\<rparr>) 900 100
       = Inr (wide_dialog\<lparr>is_dragging := True, drag_type := Some DragLeft, crop_left := 740\<rparr>)
   \<and> (\<exists>d'. mouse_run wide_dialog [Press LeftButton 20 100, Move 900 100, Release LeftButton] = Inr d'
         \<and> crop_left d' \<le> crop_right d' - min_crop_size)"
proof -
  let ?d = "wide_dialog\<lparr>is_dragging := True, drag_type := Some DragLeft\<rparr>"
  have i: "crop_inv ?d" by (simp add: wide_inv)
  have a: "on_mouse_move ?d 900 100
       = Inr (wide_dialog\<lparr>is_dragging := True, drag_type := Some DragLeft, crop_left := 740\<rparr>)"
    using drag_keeps_min_size [OF i]
    by (simp add: wide_dialog_def moved_edge_def clamp_def get_valid_image_coords_def)
  have b: "\<exists>d'. mouse_run wide_dialog [Press LeftButton 20 100, Move 900 100, Release LeftButton] = Inr d'
         \<and> crop_left d' \<le> crop_right d' - min_crop_size"
    using drag_keeps_min_size [OF wide_inv] by blast
  show ?thesis using wide_inv a b by blast
qed

text \<open>
  C6. A preview 30 units wide starts with the right edge at 10, left of the left
  edge at 20: \<open>_init_image_display\<close> insets the rectangle by 20 units without
  looking at the preview's size. Dragging the left edge then moves it to 0, past
  the right edge minus the minimum crop size; the rectangle is 10 units wide.
\<close>

theorem drag_left_crosses:
  "init_image_display (new_dialog (Some (blank 30 545)) (780, 545)) (30, 545) = Inr narrow_dialog
   \<and> mouse_run narrow_dialog [Press LeftButton 390 100, Move 380 100]
       = Inr (narrow_dialog\<lparr>is_dragging := True, drag_type := Some DragLeft, crop_left := 0\<rparr>)
   \<and> crop_right narrow_dialog = 10"
  by (simp add: narrow_dialog_shown)
     (simp add: narrow_dialog_def on_mouse_press_def on_mouse_move_def get_valid_image_coords_def
        judge_drag_type_def update_crop_coords_def drag_threshold_def min_crop_size_def Let_def)

lemma py_int_truncation: "truncation_of x (py_int x)"
proof (cases "0 \<le> x")
  case True
  have "real_of_int \<lfloor>x\<rfloor> \<le> x" "x < real_of_int \<lfloor>x\<rfloor> + 1" by linarith+
  moreover have "0 \<le> real_of_int \<lfloor>x\<rfloor>" using True by simp
  ultimately show ?thesis using True
    by (simp add: truncation_of_def py_int_def)
next
  case False
  have c: "x \<le> real_of_int \<lceil>x\<rceil>" "real_of_int \<lceil>x\<rceil> - 1 < x" by linarith+
  have n: "real_of_int \<lceil>x\<rceil> \<le> 0" using False by (simp add: ceiling_le_zero)
  have "0 \<le> real_of_int \<lceil>x\<rceil> * x"
    using n False by (simp add: mult_nonpos_nonpos)
  then show ?thesis using False c n
    by (simp add: truncation_of_def py_int_def)
qed

lemma py_slice_rows:
  assumes "0 \<le> a" "a \<le> b" "b \<le> int (length xs)"
  shows "py_slice a b xs = take (nat (b - a)) (drop (nat a) xs)"
  using assms by (simp add: py_slice_def slice_bound_def Let_def)

lemma crop_array_inside:
  assumes "rectangular im" "rect_within (l, t, r, b) (img_width im) (img_height im)"
      and "l \<le> r" "t \<le> b"
  shows "crop_array t b l r im = sub_image (l, t, r, b) im"
proof -
  from assms(2) have b: "0 \<le> l" "r \<le> img_width im" "0 \<le> t" "b \<le> int (length im)"
    by (simp_all add: rect_within_def img_height_def)
  have rows: "py_slice t b im = take (nat (b - t)) (drop (nat t) im)"
    using b assms(4) by (simp add: py_slice_rows)
  have "\<And>row. row \<in> set (take (nat (b - t)) (drop (nat t) im))
          \<Longrightarrow> py_slice l r row = take (nat (r - l)) (drop (nat l) row)"
  proof -
    fix row assume "row \<in> set (take (nat (b - t)) (drop (nat t) im))"
    then have "row \<in> set im" by (meson in_set_takeD in_set_dropD)
    then have "int (length row) = img_width im" using assms(1) by (simp add: rectangular_def)
    then show "py_slice l r row = take (nat (r - l)) (drop (nat l) row)"
      using b assms(3) by (simp add: py_slice_rows)
  qed
  then show ?thesis
    by (simp add: crop_array_def sub_image_def rows)
qed

lemma on_confirm_crop_eq:
  assumes "dlg_original_image d = Some im" "scaled_qt_img d = Some scaled"
      and "orig_rect d = (l, t, r, b)"
  shows "on_confirm_crop d =
           (if l < 0 \<or> t < 0 \<or> img_width im < r \<or> img_height im < b
            then Inl RegionOutOfBounds
            else Inr (d\<lparr>dlg_cropped_image := Some (crop_array t b l r im)\<rparr>))"
  using assms by (simp add: on_confirm_crop_def Let_def)

lemma rectangular_blank: "rectangular (blank w h)"
  by (cases h) (auto simp: rectangular_def blank_def img_width_def)

text \<open>
  The right edge 780 of the first dialog, reached by dragging the right edge to the
  preview's border, is mapped to 199 and not to 200: the product of 780 and the
  rounded scale factor is just below 200.
\<close>

lemma right_edge_maps_below:
  "py_int (fl64 (real_of_int 780 * scale_w wide_dialog)) = 199"
proof -
  have "scale_w wide_dialog = fl64 (10 / 39)" by (simp add: wide_dialog_def)
  then have "fl64 (real_of_int 780 * scale_w wide_dialog)
               = fl64 (780 * (4619076540892816 / 2 ^ 54))"
    by (simp only: fl64_scale of_int_numeral)
  then have v: "fl64 (real_of_int 780 * scale_w wide_dialog) = 7036874417766399 / 2 ^ 45"
    by (simp only: fl64_right_edge)
  show ?thesis unfolding v by (simp add: py_int_def)
qed

text \<open>
  C8. A preview 18 units wide starts with the rectangle (20, 20, -2, 525), which the
  scale factors 1 map to itself: its left edge is beyond the image's width of 18
  and its right edge is negative, so it does not lie within the image. None of the
  four tests of \<open>on_confirm_crop\<close> fires: no warning is shown, and the crop applied
  is the slice \<open>[20:525, 20:-2]\<close> of the image, 505 rows of no pixel.
\<close>

theorem confirm_crop_inverted:
  "init_image_display (new_dialog (Some (blank 18 545)) (780, 545)) (18, 545) = Inr thin_dialog
   \<and> orig_rect thin_dialog = (20, 20, - 2, 525)
   \<and> \<not> rect_within (20, 20, - 2, 525) (img_width (blank 18 545)) (img_height (blank 18 545))
   \<and> on_confirm_crop thin_dialog
        = Inr (thin_dialog\<lparr>dlg_cropped_image := Some (replicate 505 [])\<rparr>)"
proof -
  have a: "init_image_display (new_dialog (Some (blank 18 545)) (780, 545)) (18, 545)
             = Inr thin_dialog"
    by (simp add: init_image_display_def new_dialog_def thin_dialog_def img_height_blank
          img_width_blank fl64_1)
  have b: "orig_rect thin_dialog = (20, 20, - 2, 525)"
    by (simp add: orig_rect_def thin_dialog_def py_int_def fl64_20 fl64_525 fl64_minus_2)
  have c: "\<not> rect_within (20, 20, - 2, 525) (img_width (blank 18 545)) (img_height (blank 18 545))"
    by (simp add: rect_within_def)
  have d: "crop_array 20 525 20 (- 2) (blank 18 545) = replicate 505 []"
    by (simp add: crop_array_def py_slice_def slice_bound_def blank_def Let_def)
  have e: "on_confirm_crop thin_dialog
        = Inr (thin_dialog\<lparr>dlg_cropped_image := Some (replicate 505 [])\<rparr>)"
    using on_confirm_crop_eq [of thin_dialog "blank 18 545" "(18, 545)", OF _ _ b]
    by (simp add: thin_dialog_def img_height_blank img_width_blank d)
  show ?thesis using a b c e by blast
qed

subsection \<open>Extraction\<close>

lemma drawn_contours_draw [simp]:
  "drawn_contours (draw img (DrawContours c)) = drawn_contours img @ [c]"
  "drawn_contours (draw img (PutText txt pos)) = drawn_contours img"
  by (simp_all add: drawn_contours_def draw_def)

lemma drawn_contours_put_label [simp]:
  "drawn_contours (put_label ext contour c a l img) = drawn_contours img"
  by (simp add: put_label_def split: prod.splits)

lemma fst_put_label [simp]: "fst (put_label ext contour c a l img) = fst img"
  by (simp add: put_label_def draw_def split: prod.splits)

lemma extract_loop_particles:
  "fst (extract_loop ext i cs (pd, img))
     = pd @ map particle_of (filter (\<lambda>ic. accepted (snd ic)) (enumerate_from i cs))"
proof (induction cs arbitrary: i pd img)
  case Nil
  then show ?case by simp
next
  case (Cons c cs)
  show ?case
  proof (cases "accepted c")
    case True
    then show ?thesis
      by (simp add: Let_def Cons.IH accepted_def particle_of_def not_le)
  next
    case False
    then have "arcLength c True \<le> 0 \<or> contourArea c \<le> 0"
      by (auto simp: accepted_def)
    then show ?thesis using False
      by (simp add: Let_def Cons.IH)
  qed
qed

lemma extract_loop_drawn:
  "drawn_contours (snd (extract_loop ext i cs (pd, img)))
     = drawn_contours img @ filter accepted cs"
proof (induction cs arbitrary: i pd img)
  case Nil
  then show ?case by simp
next
  case (Cons c cs)
  show ?case
  proof (cases "accepted c")
    case True
    then show ?thesis
      by (simp add: Let_def Cons.IH accepted_def not_le)
  next
    case False
    then have "arcLength c True \<le> 0 \<or> contourArea c \<le> 0"
      by (auto simp: accepted_def)
    then show ?thesis using False
      by (simp add: Let_def Cons.IH)
  qed
qed

lemma extract_loop_base: "fst (snd (extract_loop ext i cs (pd, img))) = fst img"
proof (induction cs arbitrary: i pd img)
  case Nil
  then show ?case by simp
next
  case (Cons c cs)
  then show ?case by (simp add: Let_def draw_def)
qed

lemma redraw_loop_drawn:
  "drawn_contours (redraw_loop ext cs img) = drawn_contours img @ cs"
  by (induction cs arbitrary: img) (simp_all add: Let_def)

lemma enumerate_from_fst_ge: "ic \<in> set (enumerate_from i cs) \<Longrightarrow> i \<le> fst ic"
proof (induction cs arbitrary: i)
  case Nil
  then show ?case by simp
next
  case (Cons c cs)
  from Cons.prems have "ic = (i, c) \<or> ic \<in> set (enumerate_from (i + 1) cs)" by simp
  then show ?case
  proof
    assume "ic = (i, c)"
    then show ?thesis by simp
  next
    assume "ic \<in> set (enumerate_from (i + 1) cs)"
    from Cons.IH [OF this] show ?thesis by simp
  qed
qed

lemma enumerate_from_sorted: "sorted_wrt (<) (map fst (enumerate_from i cs))"
proof (induction cs arbitrary: i)
  case Nil
  then show ?case by simp
next
  case (Cons c cs)
  have "\<And>ic. ic \<in> set (enumerate_from (i + 1) cs) \<Longrightarrow> i < fst ic"
    using enumerate_from_fst_ge by fastforce
  then show ?case using Cons.IH by auto
qed

lemma index_particle_of [simp]: "index (particle_of ic) = fst ic"
  by (simp add: particle_of_def)

lemma indices_sorted:
  "sorted_wrt (<) (map index (map particle_of (filter P (enumerate_from i cs))))"
proof -
  have "map index (map particle_of (filter P (enumerate_from i cs)))
          = map fst (filter P (enumerate_from i cs))"
    by simp
  moreover have "sorted_wrt (<) (map fst (filter P (enumerate_from i cs)))"
    using enumerate_from_sorted [of i cs]
    by (simp add: sorted_wrt_map sorted_wrt_filter)
  ultimately show ?thesis by (simp only:)
qed

lemma py_round_of_int_div:
  assumes "x * 10 ^ n = real_of_int k"
  shows "py_round x n = x"
proof -
  have f: "\<lfloor>x * 10 ^ n\<rfloor> = k" unfolding assms by simp
  have "py_round x n = real_of_int k / 10 ^ n"
    unfolding py_round_def Let_def f unfolding assms by simp
  also have "\<dots> = x" unfolding assms [symmetric] by simp
  finally show ?thesis .
qed

lemma py_round_half_int: "py_round (real_of_int k / 2) 4 = real_of_int k / 2"
proof (rule py_round_of_int_div)
  show "real_of_int k / 2 * 10 ^ 4 = real_of_int (k * 5000)" by simp
qed

lemma py_round_ge_floor: "real_of_int \<lfloor>x * 10 ^ n\<rfloor> / 10 ^ n \<le> py_round x n"
  by (simp add: py_round_def Let_def divide_right_mono)

lemma py_round_ge_one:
  assumes "1 \<le> x"
  shows "1 \<le> py_round x n"
proof -
  have "(10::real) ^ n \<le> x * 10 ^ n" using assms by simp
  then have "(10::int) ^ n \<le> \<lfloor>x * 10 ^ n\<rfloor>"
    by (metis le_floor_iff of_int_numeral of_int_power)
  then have "real_of_int (10 ^ n) \<le> real_of_int \<lfloor>x * 10 ^ n\<rfloor>"
    using of_int_le_iff by blast
  then have "1 \<le> real_of_int \<lfloor>x * 10 ^ n\<rfloor> / 10 ^ n"
    by simp
  then show ?thesis using py_round_ge_floor [of x n] by linarith
qed

lemma rounded4_py_round: "rounded4 (py_round x 4)"
  by (simp add: rounded4_def py_round_def Let_def)

lemma seg_length_zero_or_ge_one: "seg_length p q = 0 \<or> 1 \<le> seg_length p q"
proof -
  let ?n = "(fst p - fst q) * (fst p - fst q) + (snd p - snd q) * (snd p - snd q)"
  have "0 \<le> ?n" by simp
  then consider "?n = 0" | "1 \<le> ?n" by linarith
  then show ?thesis
  proof cases
    case 1
    then show ?thesis by (simp add: seg_length_def)
  next
    case 2
    then have "1 \<le> real_of_int ?n" by linarith
    then have "1 \<le> sqrt (real_of_int ?n)" by simp
    then show ?thesis by (simp add: seg_length_def)
  qed
qed

lemma seg_length_nonneg: "0 \<le> seg_length p q"
  by (simp add: seg_length_def)

lemma arc_sum_zero_or_ge_one: "arc_sum prev c = 0 \<or> 1 \<le> arc_sum prev c"
proof (induction c arbitrary: prev)
  case Nil
  then show ?case by simp
next
  case (Cons p ps)
  from seg_length_zero_or_ge_one [of p prev] Cons.IH [of p] seg_length_nonneg [of p prev]
  show ?case by auto
qed

lemma arcLength_pos_ge_one: "0 < arcLength c b \<Longrightarrow> 1 \<le> arcLength c b"
  using arc_sum_zero_or_ge_one [of "if b then last c else hd c" c]
  by (auto simp: arcLength_def split: if_splits)

lemma contourArea_half_int: "\<exists>k::int. contourArea c = real_of_int k / 2"
proof (cases "c = []")
  case True
  then have "contourArea c = real_of_int 0 / 2" by (simp add: contourArea_def)
  then show ?thesis by blast
next
  case False
  then have "contourArea c = real_of_int \<bar>cross_sum (last c) c\<bar> / 2"
    by (simp add: contourArea_def)
  then show ?thesis by blast
qed

lemma py_round_contourArea [simp]: "py_round (contourArea c) 4 = contourArea c"
proof -
  from contourArea_half_int [of c] obtain k where "contourArea c = real_of_int k / 2" ..
  then show ?thesis by (simp only: py_round_half_int)
qed

lemma accepted_fields_positive:
  assumes "accepted (snd ic)"
  shows "0 < perimeter (particle_of ic) \<and> 0 < area (particle_of ic)"
proof -
  from assms have "1 \<le> arcLength (snd ic) True" and a: "0 < contourArea (snd ic)"
    by (auto simp: accepted_def arcLength_pos_ge_one)
  then have "1 \<le> py_round (arcLength (snd ic) True) 4" by (simp add: py_round_ge_one)
  then show ?thesis using a by (simp add: particle_of_def)
qed

lemma goto_page2_Done:
  assumes "binary_image s = Some b" and "target_original s = Some t"
  shows "goto_page2 ext s =
           (Done, s\<lparr> particle_data := fst (extract_loop ext 1 (findContours ext b) ([], (t, []))),
                     processed_image := Some (snd (extract_loop ext 1 (findContours ext b) ([], (t, [])))),
                     view2 := Some (snd (extract_loop ext 1 (findContours ext b) ([], (t, [])))),
                     table := fst (extract_loop ext 1 (findContours ext b) ([], (t, []))),
                     current_index := 1 \<rparr>)"
  using assms by (simp add: goto_page2_def Let_def split: prod.splits)

lemma enumerate_from_distinct: "distinct (map fst (enumerate_from i cs))"
  using enumerate_from_sorted [of i cs] strict_sorted_iff by blast

lemma arcLength_dot: "arcLength dot_contour True = 0"
  by (simp add: arcLength_def dot_contour_def)

lemma contourArea_dot: "contourArea dot_contour = 0"
  by (simp add: contourArea_def dot_contour_def)

lemma arcLength_block: "arcLength block_contour True = 8"
  by (simp add: arcLength_def block_contour_def seg_length_def)

lemma contourArea_block: "contourArea block_contour = 4"
  by (simp add: contourArea_def block_contour_def)

lemma accepted_samples: "\<not> accepted dot_contour" "accepted block_contour"
  by (simp_all add: accepted_def arcLength_dot contourArea_dot arcLength_block contourArea_block)

lemma loaded_fields:
  "binary_image loaded_session = Some (threshold_binary_inv sample_gray 160 255)"
  "target_original loaded_session = Some sample_image"
  "particle_data loaded_session = []"
  by (simp_all add: loaded_session_def update_binary_image_def new_session_def target_original_def)

lemma sample_contours:
  "findContours sample_ext (threshold_binary_inv sample_gray 160 255) = [dot_contour, block_contour]"
  by (simp add: sample_ext_def)

text \<open>
  C3. When a binary image and a colour image are present, \<open>goto_page2\<close> reports
  nothing and records exactly the contours whose perimeter and area are both
  positive, each under its position in the list of \<open>findContours\<close>, counted from 1,
  with its rounded measures; the same contours are drawn. A contour that fails the
  check has no record under its position and is not drawn. Every record has a
  positive perimeter and a positive area: none is zero-valued.
\<close>

theorem extraction_skips_degenerate:
  assumes "binary_image s = Some b" and "target_original s = Some t"
  shows "\<exists>s'. goto_page2 ext s = (Done, s')
     \<and> particle_data s'
         = map particle_of (filter (\<lambda>ic. accepted (snd ic)) (enumerate_from 1 (findContours ext b)))
     \<and> table s' = particle_data s'
     \<and> map_option drawn_contours (processed_image s') = Some (filter accepted (findContours ext b))
     \<and> (\<forall>p \<in> set (particle_data s'). 0 < perimeter p \<and> 0 < area p)
     \<and> (\<forall>ic \<in> set (enumerate_from 1 (findContours ext b)).
           if accepted (snd ic) then particle_of ic \<in> set (particle_data s')
           else fst ic \<notin> index ` set (particle_data s')
                \<and> snd ic \<notin> set (filter accepted (findContours ext b)))"
proof -
  let ?cs = "findContours ext b"
  let ?r = "extract_loop ext 1 ?cs ([], (t, []))"
  let ?s' = "s\<lparr> particle_data := fst ?r, processed_image := Some (snd ?r),
                 view2 := Some (snd ?r), table := fst ?r, current_index := 1 \<rparr>"
  let ?pd = "map particle_of (filter (\<lambda>ic. accepted (snd ic)) (enumerate_from 1 ?cs))"
  have g: "goto_page2 ext s = (Done, ?s')" by (rule goto_page2_Done [OF assms])
  have pd: "particle_data ?s' = ?pd"
    using extract_loop_particles [of ext 1 ?cs "[]" "(t, [])"] by simp
  have tb: "table ?s' = particle_data ?s'" by simp
  have dr: "map_option drawn_contours (processed_image ?s') = Some (filter accepted ?cs)"
    using extract_loop_drawn [of ext 1 ?cs "[]" "(t, [])"] by (simp add: drawn_contours_def)
  have pos: "\<forall>p \<in> set ?pd. 0 < perimeter p \<and> 0 < area p"
    using accepted_fields_positive by auto
  have mem: "\<forall>ic \<in> set (enumerate_from 1 ?cs).
           if accepted (snd ic) then particle_of ic \<in> set ?pd
           else fst ic \<notin> index ` set ?pd \<and> snd ic \<notin> set (filter accepted ?cs)"
  proof
    fix ic assume m: "ic \<in> set (enumerate_from 1 ?cs)"
    show "if accepted (snd ic) then particle_of ic \<in> set ?pd
           else fst ic \<notin> index ` set ?pd \<and> snd ic \<notin> set (filter accepted ?cs)"
    proof (cases "accepted (snd ic)")
      case True
      then show ?thesis using m by simp
    next
      case False
      have "fst ic \<notin> index ` set ?pd"
      proof
        assume "fst ic \<in> index ` set ?pd"
        then obtain jc where j: "jc \<in> set (enumerate_from 1 ?cs)" "accepted (snd jc)"
            "fst jc = fst ic"
          by auto
        have "(fst ic, snd jc) \<in> set (enumerate_from 1 ?cs)"
          using j by (metis prod.collapse)
        moreover have "(fst ic, snd ic) \<in> set (enumerate_from 1 ?cs)" using m by simp
        ultimately have "snd jc = snd ic"
          using enumerate_from_distinct [of 1 ?cs] eq_key_imp_eq_value by metis
        then show False using j False by simp
      qed
      then show ?thesis using False by simp
    qed
  qed
  show ?thesis
    using g pd tb dr pos mem by (metis (no_types, lifting))
qed

lemma sample_particles:
  "map particle_of (filter (\<lambda>ic. accepted (snd ic)) (enumerate_from 1 [dot_contour, block_contour]))
     = [particle_of (2, block_contour)]"
  by (simp add: accepted_samples)

theorem extraction_skips_degenerate_witness:
  "binary_image loaded_session = Some (threshold_binary_inv sample_gray 160 255)
   \<and> target_original loaded_session = Some sample_image
   \<and> fst (goto_page2 sample_ext loaded_session) = Done
   \<and> map index (particle_data (snd (goto_page2 sample_ext loaded_session))) = [2]
   \<and> map area (particle_data (snd (goto_page2 sample_ext loaded_session))) = [4]
   \<and> map_option drawn_contours (processed_image (snd (goto_page2 sample_ext loaded_session)))
        = Some [block_contour]"
proof -
  from extraction_skips_degenerate [OF loaded_fields(1) loaded_fields(2), of sample_ext]
  obtain s' where g: "goto_page2 sample_ext loaded_session = (Done, s')"
    and pd: "particle_data s' = [particle_of (2, block_contour)]"
    and dr: "map_option drawn_contours (processed_image s') = Some [block_contour]"
    unfolding sample_contours sample_particles by (auto simp: accepted_samples)
  have "area (particle_of (2, block_contour)) = contourArea block_contour"
    by (simp add: particle_of_def)
  then have "area (particle_of (2, block_contour)) = 4"
    by (simp only: contourArea_block)
  then show ?thesis using g pd dr loaded_fields by simp
qed

text \<open>
  C10. The indices of the particle list are strictly increasing in list order, and
  they need not start at 1: on the sample mask, whose first contour is a single
  pixel, the only particle has index 2.
\<close>

theorem indices_increase_with_gaps:
  "(binary_image s = Some b \<and> target_original s = Some t \<longrightarrow>
      (\<exists>s'. goto_page2 ext s = (Done, s') \<and> sorted_wrt (<) (map index (particle_data s'))))
   \<and> map index (particle_data (snd (goto_page2 sample_ext loaded_session))) = [2]"
proof (intro conjI impI)
  assume h: "binary_image s = Some b \<and> target_original s = Some t"
  let ?cs = "findContours ext b"
  let ?r = "extract_loop ext 1 ?cs ([], (t, []))"
  have "goto_page2 ext s =
          (Done, s\<lparr> particle_data := fst ?r, processed_image := Some (snd ?r),
                    view2 := Some (snd ?r), table := fst ?r, current_index := 1 \<rparr>)"
    using h by (simp add: goto_page2_Done)
  moreover have "sorted_wrt (<) (map index (fst ?r))"
    using extract_loop_particles [of ext 1 ?cs "[]" "(t, [])"] indices_sorted by simp
  ultimately show "\<exists>s'. goto_page2 ext s = (Done, s') \<and> sorted_wrt (<) (map index (particle_data s'))"
    by simp
next
  let ?r = "extract_loop sample_ext 1 [dot_contour, block_contour] ([], (sample_image, []))"
  have e: "goto_page2 sample_ext loaded_session =
          (Done, loaded_session\<lparr> particle_data := fst ?r, processed_image := Some (snd ?r),
                   view2 := Some (snd ?r), table := fst ?r, current_index := 1 \<rparr>)"
    using goto_page2_Done [OF loaded_fields(1) loaded_fields(2), of sample_ext]
    by (simp only: sample_contours)
  have "particle_data (snd (goto_page2 sample_ext loaded_session)) = fst ?r"
    unfolding e by (simp del: extract_loop.simps)
  also have "\<dots> = [particle_of (2, block_contour)]"
    unfolding extract_loop_particles sample_particles by simp
  finally show "map index (particle_data (snd (goto_page2 sample_ext loaded_session))) = [2]"
    by simp
qed

theorem indices_increase_with_gaps_witness:
  "binary_image loaded_session = Some (threshold_binary_inv sample_gray 160 255)
   \<and> target_original loaded_session = Some sample_image
   \<and> fst (goto_page2 sample_ext loaded_session) = Done
   \<and> sorted_wrt (<) (map index (particle_data (snd (goto_page2 sample_ext loaded_session))))
   \<and> map index (particle_data (snd (goto_page2 sample_ext loaded_session))) = [2]"
proof -
  note th = indices_increase_with_gaps [of loaded_session "threshold_binary_inv sample_gray 160 255"
      sample_image sample_ext]
  from th loaded_fields obtain s' where "goto_page2 sample_ext loaded_session = (Done, s')"
    "sorted_wrt (<) (map index (particle_data s'))" by blast
  then show ?thesis using th loaded_fields by simp
qed

subsection \<open>The filter\<close>

lemma filter_particles_Done:
  assumes "py_float ext (area_threshold_input s) = Some v" and "\<not> float_lt_zero v"
      and "target_original s = Some t" and "binary_image s = Some b"
  shows "filter_particles ext s =
           (Done, s\<lparr> processed_image :=
                       Some (redraw_loop ext
                               (filter (\<lambda>c. ge_float (contourArea c) v) (findContours ext b)) (t, [])),
                     table := filter (\<lambda>item. ge_float (area item) v) (particle_data s),
                     view3 :=
                       Some (redraw_loop ext
                               (filter (\<lambda>c. ge_float (contourArea c) v) (findContours ext b)) (t, [])),
                     filtered_particle_data :=
                       Some (filter (\<lambda>item. ge_float (area item) v) (particle_data s)),
                     current_index := 2 \<rparr>)"
  using assms by (simp add: filter_particles_def Let_def)

lemma goto_page2_Done_iff:
  "goto_page2 ext s0 = (Done, s) \<Longrightarrow>
     \<exists>b t. binary_image s0 = Some b \<and> target_original s0 = Some t"
  by (auto simp: goto_page2_def Let_def split: option.splits prod.splits)

lemma goto_page2_areas_positive:
  assumes "goto_page2 ext s0 = (Done, s)"
  shows "\<forall>p \<in> set (particle_data s). 0 < area p"
proof -
  from goto_page2_Done_iff [OF assms] obtain b t
    where "binary_image s0 = Some b" "target_original s0 = Some t" by blast
  from goto_page2_Done [OF this, of ext] assms
  have "particle_data s = fst (extract_loop ext 1 (findContours ext b) ([], (t, [])))"
    by auto
  then have "particle_data s
      = map particle_of (filter (\<lambda>ic. accepted (snd ic)) (enumerate_from 1 (findContours ext b)))"
    by (simp only: extract_loop_particles append_Nil)
  then show ?thesis using accepted_fields_positive by auto
qed

text \<open>
  A text that \<open>float()\<close> rejects or reads as a value below 0 gets the warning, and
  the session stays as it was.
\<close>

lemma invalid_min_area_rejected:
  assumes "py_float ext (area_threshold_input s) = None
           \<or> (\<exists>v. py_float ext (area_threshold_input s) = Some v \<and> float_lt_zero v)"
  shows "filter_particles ext s = (Warned InvalidMinArea, s)"
  using assms by (auto simp: filter_particles_def)

text \<open>
  C4. With a minimum area that \<open>float()\<close> reads as a number \<open>m\<close> of at least 0, and
  the images present, \<open>filter_particles\<close> keeps exactly the records whose area is at
  least \<open>m\<close>, in their order, the boundary included; the particle list itself stays
  as it was. With \<open>m = 0\<close> the whole list is kept when no area is negative, as after
  \<open>goto_page2\<close>; with \<open>m\<close> above every area nothing is kept.
\<close>

theorem filter_keeps_large:
  assumes "py_float ext (area_threshold_input s) = Some (Finite m)" and "0 \<le> m"
      and "target_original s = Some t" and "binary_image s = Some b"
  shows "\<exists>s' kept. filter_particles ext s = (Done, s')
     \<and> filtered_particle_data s' = Some kept \<and> table s' = kept
     \<and> particle_data s' = particle_data s
     \<and> kept = filter (\<lambda>p. m \<le> area p) (particle_data s)
     \<and> (\<forall>p. p \<in> set kept \<longleftrightarrow> p \<in> set (particle_data s) \<and> m \<le> area p)
     \<and> (m = 0 \<and> (\<forall>p \<in> set (particle_data s). 0 \<le> area p) \<longrightarrow> kept = particle_data s)
     \<and> (m = 0 \<and> (\<exists>s0. goto_page2 ext s0 = (Done, s)) \<longrightarrow> kept = particle_data s)
     \<and> ((\<forall>p \<in> set (particle_data s). area p < m) \<longrightarrow> kept = [])"
proof -
  let ?kept = "filter (\<lambda>p. m \<le> area p) (particle_data s)"
  have nz: "\<not> float_lt_zero (Finite m)" using assms(2) by simp
  note d = filter_particles_Done [OF assms(1) nz assms(3) assms(4)]
  have 1: "\<forall>p. p \<in> set ?kept \<longleftrightarrow> p \<in> set (particle_data s) \<and> m \<le> area p" by simp
  have 2: "m = 0 \<and> (\<forall>p \<in> set (particle_data s). 0 \<le> area p) \<longrightarrow> ?kept = particle_data s"
    by simp
  have 3: "m = 0 \<and> (\<exists>s0. goto_page2 ext s0 = (Done, s)) \<longrightarrow> ?kept = particle_data s"
  proof
    assume h: "m = 0 \<and> (\<exists>s0. goto_page2 ext s0 = (Done, s))"
    then obtain s0 where "goto_page2 ext s0 = (Done, s)" by blast
    from goto_page2_areas_positive [OF this] have "\<forall>p \<in> set (particle_data s). 0 \<le> area p"
      by (simp add: less_imp_le)
    then show "?kept = particle_data s" using h by simp
  qed
  have 4: "(\<forall>p \<in> set (particle_data s). area p < m) \<longrightarrow> ?kept = []"
    by (auto simp: filter_empty_conv)
  show ?thesis
    unfolding d using 1 2 3 4 by simp
qed

lemma analysed_fields:
  "particle_data analysed_session = [particle_of (2, block_contour)]"
  "table analysed_session = [particle_of (2, block_contour)]"
  "binary_image analysed_session = Some (threshold_binary_inv sample_gray 160 255)"
  "original_image analysed_session = Some sample_image"
  "cropped_image analysed_session = None"
  "area_threshold_input analysed_session = ''0''"
proof -
  let ?r = "extract_loop sample_ext 1 [dot_contour, block_contour] ([], (sample_image, []))"
  have e: "goto_page2 sample_ext loaded_session =
          (Done, loaded_session\<lparr> particle_data := fst ?r, processed_image := Some (snd ?r),
                   view2 := Some (snd ?r), table := fst ?r, current_index := 1 \<rparr>)"
    using goto_page2_Done [OF loaded_fields(1) loaded_fields(2), of sample_ext]
    by (simp only: sample_contours)
  have r: "fst ?r = [particle_of (2, block_contour)]"
    unfolding extract_loop_particles sample_particles by simp
  show "particle_data analysed_session = [particle_of (2, block_contour)]"
    "table analysed_session = [particle_of (2, block_contour)]"
    unfolding analysed_session_def e using r by (simp_all del: extract_loop.simps)
  show "binary_image analysed_session = Some (threshold_binary_inv sample_gray 160 255)"
    unfolding analysed_session_def e using loaded_fields(1) by (simp del: extract_loop.simps)
  show "original_image analysed_session = Some sample_image"
    "cropped_image analysed_session = None"
    "area_threshold_input analysed_session = ''0''"
    unfolding analysed_session_def e
    by (simp_all add: loaded_session_def update_binary_image_def new_session_def
          del: extract_loop.simps)
qed

lemma area_sample_particle: "area (particle_of (2, block_contour)) = 4"
  by (simp add: particle_of_def) (simp only: contourArea_block)

theorem filter_keeps_large_witness:
  "py_float sample_ext (area_threshold_input (analysed_session\<lparr>area_threshold_input := ''4''\<rparr>))
     = Some (Finite 4)
   \<and> target_original (analysed_session\<lparr>area_threshold_input := ''4''\<rparr>) = Some sample_image
   \<and> binary_image (analysed_session\<lparr>area_threshold_input := ''4''\<rparr>)
       = Some (threshold_binary_inv sample_gray 160 255)
   \<and> map area (particle_data analysed_session) = [4]
   \<and> fst (filter_particles sample_ext (analysed_session\<lparr>area_threshold_input := ''4''\<rparr>)) = Done
   \<and> table (snd (filter_particles sample_ext (analysed_session\<lparr>area_threshold_input := ''4''\<rparr>)))
       = particle_data analysed_session"
proof -
  let ?s = "analysed_session\<lparr>area_threshold_input := ''4''\<rparr>"
  have a: "py_float sample_ext (area_threshold_input ?s) = Some (Finite 4)"
    by (simp add: sample_ext_def)
  have b: "target_original ?s = Some sample_image"
    and c: "binary_image ?s = Some (threshold_binary_inv sample_gray 160 255)"
    and pd: "particle_data ?s = [particle_of (2, block_contour)]"
    by (simp_all add: analysed_fields target_original_def)
  from filter_keeps_large [OF a _ b c] obtain s' kept
    where f: "filter_particles sample_ext ?s = (Done, s')" and t: "table s' = kept"
      and k: "kept = filter (\<lambda>p. 4 \<le> area p) (particle_data ?s)"
    by force
  have "kept = particle_data analysed_session"
    using k pd by (simp add: analysed_fields area_sample_particle)
  then show ?thesis using a b c f t by (simp add: analysed_fields area_sample_particle)
qed

lemma seg_length_zero: "seg_length p q = 0 \<Longrightarrow> p = q"
proof -
  assume "seg_length p q = 0"
  then have "(fst p - fst q) * (fst p - fst q) + (snd p - snd q) * (snd p - snd q) = 0"
    by (simp add: seg_length_def)
  then have "fst p - fst q = 0 \<and> snd p - snd q = 0"
    by (simp add: sum_squares_eq_zero_iff)
  then show "p = q" by (simp add: prod_eq_iff)
qed

lemma arc_sum_nonneg: "0 \<le> arc_sum prev c"
  by (induction c arbitrary: prev) (simp_all add: seg_length_nonneg)

lemma arc_sum_zero_all_equal: "arc_sum prev c = 0 \<Longrightarrow> \<forall>p \<in> set c. p = prev"
proof (induction c arbitrary: prev)
  case Nil
  then show ?case by simp
next
  case (Cons p ps)
  have "seg_length p prev = 0 \<and> arc_sum p ps = 0"
    using Cons.prems seg_length_nonneg [of p prev] arc_sum_nonneg [of p ps] by simp
  then have "p = prev" "\<forall>q \<in> set ps. q = p"
    using seg_length_zero Cons.IH by blast+
  then show ?case by simp
qed

lemma cross_sum_all_equal: "\<forall>p \<in> set c. p = prev \<Longrightarrow> cross_sum prev c = 0"
  by (induction c arbitrary: prev) simp_all

lemma area_positive_perimeter_positive:
  assumes "0 < contourArea c"
  shows "0 < arcLength c True"
proof (rule ccontr)
  assume "\<not> 0 < arcLength c True"
  then have z: "arcLength c True = 0"
    using arc_sum_nonneg [of "last c" c] by (simp add: arcLength_def split: if_splits)
  have "cross_sum (last c) c = 0"
  proof (cases "length c \<le> 1")
    case True
    then have "c = [] \<or> (\<exists>p. c = [p])"
      by (cases c) (auto simp: length_Suc_conv)
    then show ?thesis by auto
  next
    case False
    then have "arc_sum (last c) c = 0" using z by (simp add: arcLength_def)
    then show ?thesis using arc_sum_zero_all_equal cross_sum_all_equal by blast
  qed
  then show False using assms by (simp add: contourArea_def split: if_splits)
qed

text \<open>
  Above a positive minimum area the two paths of the filter agree: the contours
  drawn are those of the records kept.
\<close>

lemma filter_paths_agree_above_zero:
  assumes "0 < m"
  shows "filter (\<lambda>c. m \<le> contourArea c) cs
           = map snd (filter (\<lambda>ic. m \<le> area (particle_of ic))
                        (filter (\<lambda>ic. accepted (snd ic)) (enumerate_from i cs)))"
proof (induction cs arbitrary: i)
  case Nil
  then show ?case by simp
next
  case (Cons c cs)
  have "m \<le> contourArea c \<Longrightarrow> accepted c"
    using assms area_positive_perimeter_positive [of c] by (simp add: accepted_def)
  then show ?case using Cons.IH [of "i + 1"] by (auto simp: particle_of_def)
qed

lemma extraction_draws_sample:
  "map_option drawn_contours (processed_image analysed_session) = Some [block_contour]"
proof -
  let ?r = "extract_loop sample_ext 1 [dot_contour, block_contour] ([], (sample_image, []))"
  have e: "goto_page2 sample_ext loaded_session =
          (Done, loaded_session\<lparr> particle_data := fst ?r, processed_image := Some (snd ?r),
                   view2 := Some (snd ?r), table := fst ?r, current_index := 1 \<rparr>)"
    using goto_page2_Done [OF loaded_fields(1) loaded_fields(2), of sample_ext]
    by (simp only: sample_contours)
  have "drawn_contours (snd ?r) = [block_contour]"
    unfolding extract_loop_drawn by (simp add: accepted_samples drawn_contours_def)
  then show ?thesis
    unfolding analysed_session_def e by (simp del: extract_loop.simps)
qed

text \<open>
  C5. The text \<open>nan\<close> is not a number, yet \<open>float()\<close> returns a NaN for it, which
  is not below 0: \<open>filter_particles\<close> shows no warning, drops every record from the
  table, redraws the overlay without a contour and shows page 3.
\<close>

theorem nan_min_area_accepted:
  "py_float sample_ext ''nan'' = Some NaN
   \<and> map index (table (analysed_session\<lparr>area_threshold_input := ''nan''\<rparr>)) = [2]
   \<and> fst (filter_particles sample_ext (analysed_session\<lparr>area_threshold_input := ''nan''\<rparr>)) = Done
   \<and> table (snd (filter_particles sample_ext (analysed_session\<lparr>area_threshold_input := ''nan''\<rparr>))) = []
   \<and> processed_image (snd (filter_particles sample_ext (analysed_session\<lparr>area_threshold_input := ''nan''\<rparr>)))
       = Some (sample_image, [])
   \<and> current_index (snd (filter_particles sample_ext (analysed_session\<lparr>area_threshold_input := ''nan''\<rparr>))) = 2"
proof -
  let ?s = "analysed_session\<lparr>area_threshold_input := ''nan''\<rparr>"
  have a: "py_float sample_ext (area_threshold_input ?s) = Some NaN"
    by (simp add: sample_ext_def)
  have b: "target_original ?s = Some sample_image"
    and c: "binary_image ?s = Some (threshold_binary_inv sample_gray 160 255)"
    by (simp_all add: analysed_fields target_original_def)
  note d = filter_particles_Done [OF a _ b c, simplified]
  show ?thesis
    unfolding d using a by (simp add: analysed_fields)
qed

text \<open>
  C9. With the minimum area 0 the overlay redrawn by \<open>filter_particles\<close> shows the
  single-pixel contour, whose area is 0, while the table holds only the record of
  the block at index 2: the contours drawn are not those of the records kept.
  \<open>goto_page2\<close> had drawn the block alone.
\<close>

theorem overlay_draws_untabled_contour:
  "area_threshold_input analysed_session = ''0''
   \<and> py_float sample_ext ''0'' = Some (Finite 0)
   \<and> fst (filter_particles sample_ext analysed_session) = Done
   \<and> map index (table (snd (filter_particles sample_ext analysed_session))) = [2]
   \<and> map_option drawn_contours (processed_image (snd (filter_particles sample_ext analysed_session)))
       = Some [dot_contour, block_contour]
   \<and> map_option drawn_contours (processed_image analysed_session) = Some [block_contour]"
proof -
  have a: "py_float sample_ext (area_threshold_input analysed_session) = Some (Finite 0)"
    by (simp add: sample_ext_def analysed_fields)
  have b: "target_original analysed_session = Some sample_image"
    and c: "binary_image analysed_session = Some (threshold_binary_inv sample_gray 160 255)"
    by (simp_all add: analysed_fields target_original_def)
  note d = filter_particles_Done [OF a _ b c, simplified]
  have k: "filter (\<lambda>c. 0 \<le> contourArea c) [dot_contour, block_contour]
             = [dot_contour, block_contour]"
    by (simp add: contourArea_dot contourArea_block)
  have dr: "drawn_contours (redraw_loop sample_ext [dot_contour, block_contour] (sample_image, []))
              = [dot_contour, block_contour]"
    unfolding redraw_loop_drawn by (simp add: drawn_contours_def)
  have p0: "map_option drawn_contours (processed_image analysed_session) = Some [block_contour]"
    using extraction_draws_sample by simp
  show ?thesis
    unfolding d sample_contours k using a dr p0
    by (simp add: analysed_fields area_sample_particle sample_ext_def del: redraw_loop.simps)
qed

subsection \<open>Binarisation\<close>

lemma threshold_binary_inv_nth:
  assumes "i < length g" "j < length (g ! i)"
  shows "threshold_binary_inv g t mx ! i ! j = (if uint (g ! i ! j) > t then 0 else mx)"
  using assms by (simp add: threshold_binary_inv_def)

lemma threshold_binary_inv_shape:
  "length (threshold_binary_inv g t mx) = length g"
  "i < length g \<Longrightarrow> length (threshold_binary_inv g t mx ! i) = length (g ! i)"
  by (simp_all add: threshold_binary_inv_def)

lemma uint8_le_255: "uint (p :: 8 word) \<le> 255"
  using uint_bounded [of p] by simp

text \<open>
  C1, as amended. The mask has the shape of the grayscale image, and a pixel is
  foreground (255) exactly when its grayscale value is at most the threshold, and
  background (0) otherwise: a pixel equal to the threshold is foreground. With the
  threshold 255 every pixel is foreground; with the threshold 0 exactly the pixels
  of value 0 are.
\<close>

theorem binarize_foreground_le:
  assumes "gray_image s = Some g"
  shows "\<exists>m. update_binary_image s t = s\<lparr>binary_image := Some m\<rparr>
     \<and> length m = length g
     \<and> (\<forall>i < length g. length (m ! i) = length (g ! i)
          \<and> (\<forall>j < length (g ! i).
                (m ! i ! j = 255 \<longleftrightarrow> uint (g ! i ! j) \<le> t)
              \<and> (m ! i ! j = 0 \<longleftrightarrow> t < uint (g ! i ! j))
              \<and> (t = 255 \<longrightarrow> m ! i ! j = 255)
              \<and> (t = 0 \<longrightarrow> (m ! i ! j = 255 \<longleftrightarrow> g ! i ! j = 0))))"
proof -
  let ?m = "threshold_binary_inv g t 255"
  have u: "update_binary_image s t = s\<lparr>binary_image := Some ?m\<rparr>"
    using assms by (simp add: update_binary_image_def)
  have px: "\<forall>i < length g. length (?m ! i) = length (g ! i)
          \<and> (\<forall>j < length (g ! i).
                (?m ! i ! j = 255 \<longleftrightarrow> uint (g ! i ! j) \<le> t)
              \<and> (?m ! i ! j = 0 \<longleftrightarrow> t < uint (g ! i ! j))
              \<and> (t = 255 \<longrightarrow> ?m ! i ! j = 255)
              \<and> (t = 0 \<longrightarrow> (?m ! i ! j = 255 \<longleftrightarrow> g ! i ! j = 0)))"
  proof (intro allI impI conjI)
    fix i assume i: "i < length g"
    show "length (?m ! i) = length (g ! i)" using i by (simp add: threshold_binary_inv_shape)
    fix j assume j: "j < length (g ! i)"
    note n = threshold_binary_inv_nth [OF i j, of t 255]
    show "?m ! i ! j = 255 \<longleftrightarrow> uint (g ! i ! j) \<le> t" by (simp add: n)
    show "?m ! i ! j = 0 \<longleftrightarrow> t < uint (g ! i ! j)" by (simp add: n)
    show "?m ! i ! j = 255" if "t = 255"
    proof -
      have "uint (g ! i ! j) \<le> t" using that uint8_le_255 [of "g ! i ! j"] by simp
      then show ?thesis by (simp add: n)
    qed
    show "?m ! i ! j = 255 \<longleftrightarrow> g ! i ! j = 0" if "t = 0"
    proof -
      have "uint (g ! i ! j) \<le> t \<longleftrightarrow> g ! i ! j = 0"
        using that uint_ge_0 [of "g ! i ! j"] by (auto simp: uint_0_iff)
      then show ?thesis by (auto simp: n not_less)
    qed
  qed
  show ?thesis
    using u px threshold_binary_inv_shape(1) [of g t 255] by blast
qed

theorem binarize_foreground_le_witness:
  "gray_image (gray_session [[0, 159, 160, 161, 255]]) = Some [[0, 159, 160, 161, 255]]
   \<and> binary_image (update_binary_image (gray_session [[0, 159, 160, 161, 255]]) 160)
       = Some [[255, 255, 255, 0, 0]]"
proof -
  have g: "gray_image (gray_session [[0, 159, 160, 161, 255]]) = Some [[0, 159, 160, 161, 255]]"
    by (simp add: gray_session_def)
  from binarize_foreground_le [OF g, of 160] obtain m
    where u: "update_binary_image (gray_session [[0, 159, 160, 161, 255]]) 160
                = (gray_session [[0, 159, 160, 161, 255]])\<lparr>binary_image := Some m\<rparr>"
    by blast
  have "binary_image (update_binary_image (gray_session [[0, 159, 160, 161, 255]]) 160)
          = Some [[255, 255, 255, 0, 0]]"
    by (simp add: update_binary_image_def gray_session_def threshold_binary_inv_def)
  then show ?thesis using g u by simp
qed

text \<open>
  The claim as stated fails at the boundary: with the threshold 160 a pixel of
  value 160 is foreground, and with the threshold 0 a pixel of value 0 is, so that
  mask is not all background.
\<close>

theorem binarize_boundary_is_foreground:
  "binary_image (update_binary_image (gray_session [[160, 161]]) 160) = Some [[255, 0]]
   \<and> binary_image (update_binary_image (gray_session [[0, 1]]) 0) = Some [[255, 0]]"
  by (simp add: update_binary_image_def gray_session_def threshold_binary_inv_def)

subsection \<open>The CSV export\<close>

lemma rounded_particle_of:
  "rounded4 (perimeter (particle_of ic)) \<and> rounded4 (area (particle_of ic))
   \<and> rounded4 (circularity (particle_of ic))"
  by (simp add: particle_of_def rounded4_py_round del: py_round_contourArea)

lemma goto_page2_rounded:
  assumes "goto_page2 ext s0 = (Done, s1)"
  shows "\<forall>p \<in> set (particle_data s1).
           rounded4 (perimeter p) \<and> rounded4 (area p) \<and> rounded4 (circularity p)"
proof -
  from goto_page2_Done_iff [OF assms] obtain b t
    where "binary_image s0 = Some b" "target_original s0 = Some t" by blast
  from goto_page2_Done [OF this, of ext] assms
  have "particle_data s1 = fst (extract_loop ext 1 (findContours ext b) ([], (t, [])))"
    by auto
  then have "particle_data s1
      = map particle_of (filter (\<lambda>ic. accepted (snd ic)) (enumerate_from 1 (findContours ext b)))"
    by (simp only: extract_loop_particles append_Nil)
  then show ?thesis using rounded_particle_of by auto
qed

lemma filter_particles_kept_subset:
  assumes "filter_particles ext s1 = (Done, s)" and "filtered_particle_data s = Some kept"
  shows "set kept \<subseteq> set (particle_data s1)"
  using assms
  by (auto simp: filter_particles_def Let_def split: option.splits if_splits)

lemma filtered_fields:
  "filtered_particle_data filtered_session = Some [particle_of (2, block_contour)]"
  "original_image_path filtered_session = ''grains.png''"
proof -
  have a: "py_float sample_ext (area_threshold_input analysed_session) = Some (Finite 0)"
    by (simp add: sample_ext_def analysed_fields)
  have b: "target_original analysed_session = Some sample_image"
    and c: "binary_image analysed_session = Some (threshold_binary_inv sample_gray 160 255)"
    by (simp_all add: analysed_fields target_original_def)
  note d = filter_particles_Done [OF a _ b c, simplified]
  show "filtered_particle_data filtered_session = Some [particle_of (2, block_contour)]"
    unfolding filtered_session_def d by (simp add: analysed_fields area_sample_particle)
  have "original_image_path analysed_session = ''grains.png''"
    unfolding analysed_session_def
    using goto_page2_Done [OF loaded_fields(1) loaded_fields(2), of sample_ext]
    by (simp add: loaded_session_def update_binary_image_def new_session_def
          del: extract_loop.simps)
  then show "original_image_path filtered_session = ''grains.png''"
    unfolding filtered_session_def d by simp
qed

text \<open>
  C2, as amended. Once particles have been filtered, an image path is known and the
  operator has chosen a file, the export opens the file as UTF-8 with a byte-order
  mark and writes the header row of the four Chinese labels for serial number,
  perimeter, area and circularity, in that order, followed by one row per retained
  particle holding its index, perimeter, area and circularity as stored. For a list
  that comes from \<open>goto_page2\<close> and \<open>filter_particles\<close> the three measures have at
  most 4 decimals.
\<close>

theorem csv_export_rows:
  assumes "filtered_particle_data s = Some kept" and "original_image_path s \<noteq> []"
      and "save_path \<noteq> []"
  shows "\<exists>f. save_processed_csv s save_path = Inr (Some f)
     \<and> csv_path f = save_path \<and> csv_encoding f = ''utf-8-sig''
     \<and> length (csv_rows f) = 1 + length kept
     \<and> csv_rows f ! 0 =
         [CStr [CHR 0xE5, CHR 0xBA, CHR 0x8F, CHR 0xE5, CHR 0x8F, CHR 0xB7],
          CStr [CHR 0xE5, CHR 0x91, CHR 0xA8, CHR 0xE9, CHR 0x95, CHR 0xBF],
          CStr [CHR 0xE9, CHR 0x9D, CHR 0xA2, CHR 0xE7, CHR 0xA7, CHR 0xAF],
          CStr [CHR 0xE5, CHR 0x9C, CHR 0x86, CHR 0xE5, CHR 0xBD, CHR 0xA2,
                CHR 0xE5, CHR 0xBA, CHR 0xA6]]
     \<and> (\<forall>i < length kept.
           csv_rows f ! (i + 1) =
             [CInt (index (kept ! i)), CFloat (perimeter (kept ! i)),
              CFloat (area (kept ! i)), CFloat (circularity (kept ! i))])
     \<and> ((\<exists>ext s0 s1. goto_page2 ext s0 = (Done, s1) \<and> filter_particles ext s1 = (Done, s)) \<longrightarrow>
          (\<forall>p \<in> set kept.
             rounded4 (perimeter p) \<and> rounded4 (area p) \<and> rounded4 (circularity p)))"
proof -
  let ?f = "\<lparr> csv_path = save_path, csv_encoding = ''utf-8-sig'',
              csv_rows = csv_header # map csv_row kept \<rparr>"
  have s: "save_processed_csv s save_path = Inr (Some ?f)"
    using assms by (simp add: save_processed_csv_def)
  have r: "\<forall>i < length kept.
           csv_rows ?f ! (i + 1) =
             [CInt (index (kept ! i)), CFloat (perimeter (kept ! i)),
              CFloat (area (kept ! i)), CFloat (circularity (kept ! i))]"
    by (simp add: csv_row_def)
  have p: "(\<exists>ext s0 s1. goto_page2 ext s0 = (Done, s1) \<and> filter_particles ext s1 = (Done, s)) \<longrightarrow>
          (\<forall>p \<in> set kept.
             rounded4 (perimeter p) \<and> rounded4 (area p) \<and> rounded4 (circularity p))"
    using goto_page2_rounded filter_particles_kept_subset [OF _ assms(1)] by blast
  have h: "csv_rows ?f ! 0 =
         [CStr [CHR 0xE5, CHR 0xBA, CHR 0x8F, CHR 0xE5, CHR 0x8F, CHR 0xB7],
          CStr [CHR 0xE5, CHR 0x91, CHR 0xA8, CHR 0xE9, CHR 0x95, CHR 0xBF],
          CStr [CHR 0xE9, CHR 0x9D, CHR 0xA2, CHR 0xE7, CHR 0xA7, CHR 0xAF],
          CStr [CHR 0xE5, CHR 0x9C, CHR 0x86, CHR 0xE5, CHR 0xBD, CHR 0xA2,
                CHR 0xE5, CHR 0xBA, CHR 0xA6]]"
    by (simp add: csv_header_def)
  have a: "csv_path ?f = save_path" "csv_encoding ?f = ''utf-8-sig''"
    "length (csv_rows ?f) = 1 + length kept"
    by simp_all
  show ?thesis
    using s a h r p by blast
qed

theorem csv_export_rows_witness:
  "filtered_particle_data filtered_session = Some [particle_of (2, block_contour)]
   \<and> original_image_path filtered_session \<noteq> []
   \<and> save_processed_csv filtered_session ''grains_processed.csv''
       = Inr (Some \<lparr> csv_path = ''grains_processed.csv'', csv_encoding = ''utf-8-sig'',
                      csv_rows = [csv_header,
                                  [CInt 2, CFloat (perimeter (particle_of (2, block_contour))),
                                   CFloat 4, CFloat (circularity (particle_of (2, block_contour)))]] \<rparr>)"
proof -
  have p: "original_image_path filtered_session \<noteq> []" by (simp add: filtered_fields)
  from csv_export_rows [OF filtered_fields(1) p, of "''grains_processed.csv''"]
  obtain f where f: "save_processed_csv filtered_session ''grains_processed.csv'' = Inr (Some f)"
      "csv_path f = ''grains_processed.csv''" "csv_encoding f = ''utf-8-sig''"
      "length (csv_rows f) = 2" "csv_rows f ! 0 = csv_header"
      "csv_rows f ! 1 = [CInt 2, CFloat (perimeter (particle_of (2, block_contour))),
                                   CFloat 4, CFloat (circularity (particle_of (2, block_contour)))]"
    unfolding csv_header_def [symmetric] by (auto simp: area_sample_particle)
  have "csv_rows f = [csv_rows f ! 0, csv_rows f ! 1]"
    using f(4) by (cases "csv_rows f"; cases "tl (csv_rows f)") auto
  then have "f = \<lparr> csv_path = ''grains_processed.csv'', csv_encoding = ''utf-8-sig'',
                      csv_rows = [csv_header,
                                  [CInt 2, CFloat (perimeter (particle_of (2, block_contour))),
                                   CFloat 4, CFloat (circularity (particle_of (2, block_contour)))]] \<rparr>"
    using f by (cases f) simp
  then show ?thesis using filtered_fields(1) p f(1) by simp
qed

text \<open>
  The claim as stated fails on the header: it is not the four English words.
\<close>

theorem csv_header_is_not_english:
  "save_processed_csv filtered_session ''grains_processed.csv''
       = Inr (Some \<lparr> csv_path = ''grains_processed.csv'', csv_encoding = ''utf-8-sig'',
                      csv_rows = [csv_header, csv_row (particle_of (2, block_contour))] \<rparr>)
   \<and> csv_header \<noteq> claimed_header"
  by (simp add: save_processed_csv_def filtered_fields csv_header_def claimed_header_def)

end
